theory Spec2Isabelle
  imports Complex_Main
begin

section \<open>Python values\<close>

text \<open>
  A Python float is an IEEE 754 double: a finite value, given by the real number it
  stands for (\<open>Finite 0\<close> is \<open>0.0\<close>), the negative zero, an infinity or NaN.
\<close>

datatype pyfloat = Finite real | NegZero | PosInf | NegInf | NaN

text \<open>
  The scalar values a decoded activity can hold. A Python \<open>bool\<close> is an \<open>int\<close> in
  arithmetic (\<open>True\<close> is 1). A string is a list of characters, each standing for one
  code point.
\<close>

datatype pyval = PNone | PBool bool | PInt int | PFloat pyfloat | PStr string

datatype py_error = TypeError | OverflowError | ValueError

text \<open>An activity is a decoded JSON object: a dict from keys to scalar values.\<close>

type_synonym activity = "string \<rightharpoonup> pyval"

text \<open>\<open>activity.get(key)\<close> and \<open>activity.get(key, default)\<close>.\<close>

definition dict_get :: "activity \<Rightarrow> string \<Rightarrow> pyval" where
  "dict_get a k = (case a k of None \<Rightarrow> PNone | Some v \<Rightarrow> v)"

definition dict_get_default :: "activity \<Rightarrow> string \<Rightarrow> pyval \<Rightarrow> pyval" where
  "dict_get_default a k d = (case a k of None \<Rightarrow> d | Some v \<Rightarrow> v)"

text \<open>Truth value testing, as \<open>if v:\<close> does.\<close>

fun truthy :: "pyval \<Rightarrow> bool" where
  "truthy PNone = False"
| "truthy (PBool b) = b"
| "truthy (PInt n) = (n \<noteq> 0)"
| "truthy (PFloat x) = (x \<noteq> Finite 0 \<and> x \<noteq> NegZero)"
| "truthy (PStr s) = (s \<noteq> [])"

section \<open>The paginated fetch\<close>

subsection \<open>The upstream endpoint\<close>

text \<open>
  The query parameters of one request, the \<open>params\<close> dict of \<open>get_activities\<close>.
\<close>

record query =
  q_after :: int
  q_before :: int
  q_page :: int
  q_per_page :: int

text \<open>
  What the \<open>try\<close> block can raise. \<open>requests.get\<close> raises \<open>ConnectionError\<close> or
  \<open>Timeout\<close>, \<open>raise_for_status\<close> raises \<open>HTTPError\<close>, and \<open>response.json()\<close>
  raises the library's \<open>JSONDecodeError\<close> on a body that does not parse. All four are
  subclasses of \<open>requests.exceptions.RequestException\<close>, the class the \<open>except\<close>
  clause names.
\<close>

datatype request_exception = ConnectionError | Timeout | HTTPError nat | JSONDecodeError

text \<open>
  A response body either does not parse or decodes to the array of activity objects the
  endpoint documents.
\<close>

datatype body = Malformed | Array "activity list"

datatype reply = Raises request_exception | Response nat body

type_synonym upstream = "query \<Rightarrow> reply"

definition raise_for_status :: "nat \<Rightarrow> request_exception option" where
  "raise_for_status status =
     (if 400 \<le> status \<and> status < 600 then Some (HTTPError status) else None)"

definition json :: "body \<Rightarrow> request_exception + activity list" where
  "json b = (case b of Malformed \<Rightarrow> Inl JSONDecodeError | Array xs \<Rightarrow> Inr xs)"

subsection \<open>The loop\<close>

text \<open>
  The local variables of \<open>get_activities\<close> that the loop changes, and the requests
  issued so far (the effect of \<open>requests.get\<close>), oldest first.
\<close>

record fetch_state =
  activities :: "activity list"
  page :: int
  sent :: "query list"

text \<open>The statement that leaves the loop.\<close>

datatype stop =
    Auth_failed
  | Rate_limited
  | Exhausted
  | Cap_reached
  | Request_failed request_exception

text \<open>\<open>activities[:m]\<close>: a negative bound counts from the end.\<close>

definition slice_to :: "'a list \<Rightarrow> int \<Rightarrow> 'a list" where
  "slice_to xs m = (if 0 \<le> m then take (nat m) xs else take (nat (int (length xs) + m)) xs)"

text \<open>
  \<open>max_activities and len(activities) >= max_activities\<close>: \<open>None\<close> and \<open>0\<close> are
  falsy, so the comparison is made for a nonzero bound only.
\<close>

definition limit_reached :: "int option \<Rightarrow> 'a list \<Rightarrow> bool" where
  "limit_reached max_activities xs =
     (case max_activities of
        None \<Rightarrow> False
      | Some m \<Rightarrow> m \<noteq> 0 \<and> m \<le> int (length xs))"

text \<open>
  One pass through the body of \<open>while True\<close>: \<open>Inl\<close> when a \<open>return\<close> or a
  \<open>break\<close> ends the loop, \<open>Inr\<close> when the next page is due.
\<close>

definition loop_body ::
  "upstream \<Rightarrow> int \<Rightarrow> int \<Rightarrow> int \<Rightarrow> int option \<Rightarrow> fetch_state
     \<Rightarrow> (stop \<times> fetch_state) + fetch_state" where
  "loop_body up after before per_page max_activities st =
     (let params = \<lparr>q_after = after, q_before = before, q_page = page st,
                     q_per_page = per_page\<rparr>;
          st1 = st\<lparr>sent := sent st @ [params]\<rparr>
      in case up params of
           Raises e \<Rightarrow> Inl (Request_failed e, st1)
         | Response status b \<Rightarrow>
             if status = 401 then Inl (Auth_failed, st1)
             else if status = 429 then Inl (Rate_limited, st1)
             else (case raise_for_status status of
                     Some e \<Rightarrow> Inl (Request_failed e, st1)
                   | None \<Rightarrow>
                       (case json b of
                          Inl e \<Rightarrow> Inl (Request_failed e, st1)
                        | Inr page_activities \<Rightarrow>
                            if page_activities = [] then Inl (Exhausted, st1)
                            else
                              (let acts = activities st1 @ page_activities
                               in if limit_reached max_activities acts
                                  then Inl (Cap_reached,
                                            st1\<lparr>activities :=
                                                   slice_to acts (the max_activities)\<rparr>)
                                  else Inr (st1\<lparr>activities := acts,
                                                 page := page st1 + 1\<rparr>)))))"

text \<open>\<open>while True\<close>: the loop need not end, so its result is optional.\<close>

partial_function (option) while_true :: "('s \<Rightarrow> 'r + 's) \<Rightarrow> 's \<Rightarrow> 'r option" where
  "while_true b s = (case b s of Inl r \<Rightarrow> Some r | Inr s' \<Rightarrow> while_true b s')"

text \<open>
  The state after \<open>k\<close> passes that all went on to the next page; \<open>None\<close> when one of
  them left the loop.
\<close>

fun passes :: "('s \<Rightarrow> 'r + 's) \<Rightarrow> nat \<Rightarrow> 's \<Rightarrow> 's option" where
  "passes b 0 s = Some s"
| "passes b (Suc k) s =
     (case passes b k s of
        None \<Rightarrow> None
      | Some s' \<Rightarrow> (case b s' of Inl r \<Rightarrow> None | Inr s'' \<Rightarrow> Some s''))"

text \<open>
  A datetime is taken by its POSIX timestamp; \<open>int(d.timestamp())\<close> truncates
  towards zero.
\<close>

definition py_int :: "real \<Rightarrow> int" where
  "py_int x = (if 0 \<le> x then \<lfloor>x\<rfloor> else \<lceil>x\<rceil>)"

definition initial_state :: fetch_state where
  "initial_state = \<lparr>activities = [], page = 1, sent = []\<rparr>"

definition fetch_body ::
  "upstream \<Rightarrow> real \<Rightarrow> real \<Rightarrow> int \<Rightarrow> int option \<Rightarrow> fetch_state
     \<Rightarrow> (stop \<times> fetch_state) + fetch_state" where
  "fetch_body up start_date end_date per_page max_activities =
     loop_body up (py_int start_date) (py_int end_date) (min per_page 200) max_activities"

text \<open>The query the loop sends for page \<open>n\<close>.\<close>

definition page_query :: "real \<Rightarrow> real \<Rightarrow> int \<Rightarrow> int \<Rightarrow> query" where
  "page_query start_date end_date per_page n =
     \<lparr>q_after = py_int start_date, q_before = py_int end_date, q_page = n,
      q_per_page = min per_page 200\<rparr>"

text \<open>The records a reply carries, and those of the first \<open>k\<close> pages together.\<close>

definition records_of :: "reply \<Rightarrow> activity list" where
  "records_of r = (case r of Response status (Array xs) \<Rightarrow> xs | _ \<Rightarrow> [])"

definition first_pages :: "upstream \<Rightarrow> real \<Rightarrow> real \<Rightarrow> int \<Rightarrow> nat \<Rightarrow> activity list" where
  "first_pages up start_date end_date per_page k =
     concat (map (\<lambda>i. records_of (up (page_query start_date end_date per_page (int i))))
                 [1..<Suc k])"

text \<open>The whole loop of \<open>get_activities\<close>: how it was left, and the final state.\<close>

definition fetch_loop ::
  "upstream \<Rightarrow> real \<Rightarrow> real \<Rightarrow> int \<Rightarrow> int option \<Rightarrow> (stop \<times> fetch_state) option" where
  "fetch_loop up start_date end_date per_page max_activities =
     while_true (fetch_body up start_date end_date per_page max_activities) initial_state"

text \<open>
  The value returned. The two GUI programs return \<open>None\<close> on status 401, the
  command-line program returns the empty list; on every other exit all three return
  \<open>activities\<close>. The progress lines the command-line program prints are left out.
\<close>

datatype fetched = PyNone | PyList "activity list"

definition gui_result :: "stop \<times> fetch_state \<Rightarrow> fetched" where
  "gui_result x = (if fst x = Auth_failed then PyNone else PyList (activities (snd x)))"

definition cli_result :: "stop \<times> fetch_state \<Rightarrow> activity list" where
  "cli_result x = (if fst x = Auth_failed then [] else activities (snd x))"

definition get_activities ::
  "upstream \<Rightarrow> real \<Rightarrow> real \<Rightarrow> int \<Rightarrow> int option \<Rightarrow> fetched option" where
  "get_activities up start_date end_date per_page max_activities =
     map_option gui_result (fetch_loop up start_date end_date per_page max_activities)"

definition get_activities_cli ::
  "upstream \<Rightarrow> real \<Rightarrow> real \<Rightarrow> int \<Rightarrow> int option \<Rightarrow> activity list option" where
  "get_activities_cli up start_date end_date per_page max_activities =
     map_option cli_result (fetch_loop up start_date end_date per_page max_activities)"

text \<open>
  A scripted upstream for examples: it serves the given pages in order as status 200
  and answers every other page with a fixed reply.
\<close>

definition pages_then :: "activity list list \<Rightarrow> reply \<Rightarrow> upstream" where
  "pages_then ps final q =
     (if 1 \<le> q_page q \<and> nat (q_page q) \<le> length ps
      then Response 200 (Array (ps ! (nat (q_page q) - 1)))
      else final)"

section \<open>The record normalizer\<close>

subsection \<open>Arithmetic on doubles\<close>

text \<open>The integer nearest to a real, the even one of the two on a tie.\<close>

definition half_even :: "real \<Rightarrow> int" where
  "half_even y =
     (let f = \<lfloor>y\<rfloor>; r = y - real_of_int f
      in if r < 1 / 2 then f
         else if 1 / 2 < r then f + 1
         else if even f then f else f + 1)"

text \<open>
  Rounding a real to the nearest double, ties to even: the significand has 53 bits, so
  a value in the binade of \<open>2 ^ e\<close> is rounded to a multiple of \<open>2 ^ (e - 52)\<close>, and
  below \<open>2 ^ -1022\<close> (the subnormal range) to a multiple of \<open>2 ^ -1074\<close>.
\<close>

definition expo :: "real \<Rightarrow> int" where
  "expo r = max \<lfloor>log 2 \<bar>r\<bar>\<rfloor> (- 1022)"

definition fl :: "real \<Rightarrow> real" where
  "fl r =
     (if r = 0 then 0
      else real_of_int (half_even (r / 2 powi (expo r - 52))) * 2 powi (expo r - 52))"

text \<open>
  From \<open>2 ^ 1024 - 2 ^ 970\<close> on a magnitude rounds beyond the largest double: a float
  operation then gives an infinity, and the conversion of an int, like the true division
  of two ints, raises \<open>OverflowError\<close>.
\<close>

definition float_limit :: int where
  "float_limit = 2 ^ 1024 - 2 ^ 970"

text \<open>
  The float for an exact result \<open>r\<close> of an operation. The sign is passed apart, since
  a result that rounds to zero keeps it.
\<close>

definition to_float :: "bool \<Rightarrow> real \<Rightarrow> pyfloat" where
  "to_float negative r =
     (if real_of_int float_limit \<le> \<bar>r\<bar> then (if negative then NegInf else PosInf)
      else if fl r = 0 then (if negative then NegZero else Finite 0)
      else Finite (fl r))"

text \<open>
  A float times an exact positive factor \<open>c\<close>, rounded once: the product with a
  positive double \<open>c\<close>, and the quotient by a positive int \<open>d\<close> for \<open>c = 1 / d\<close>.
\<close>

fun scale :: "pyfloat \<Rightarrow> real \<Rightarrow> pyfloat" where
  "scale (Finite x) c = to_float (x < 0) (x * c)"
| "scale NegZero c = NegZero"
| "scale PosInf c = PosInf"
| "scale NegInf c = NegInf"
| "scale NaN c = NaN"

text \<open>The literal \<open>3.6\<close> is the double nearest to it.\<close>

definition c36 :: real where
  "c36 = fl (36 / 10)"

subsection \<open>Arithmetic on values\<close>

text \<open>
  \<open>v / d\<close> for a positive int literal \<open>d\<close>. The quotient of two ints is rounded
  once from the exact quotient; a float is divided by the double \<open>d\<close>.
\<close>

fun py_truediv :: "pyval \<Rightarrow> int \<Rightarrow> py_error + pyfloat" where
  "py_truediv PNone d = Inl TypeError"
| "py_truediv (PStr s) d = Inl TypeError"
| "py_truediv (PBool b) d =
     Inr (to_float False (real_of_int (if b then 1 else 0) / real_of_int d))"
| "py_truediv (PInt n) d =
     (if float_limit * d \<le> \<bar>n\<bar> then Inl OverflowError
      else Inr (to_float (n < 0) (real_of_int n / real_of_int d)))"
| "py_truediv (PFloat x) d = Inr (scale x (1 / real_of_int d))"

text \<open>
  \<open>v * c\<close> for a positive float literal \<open>c\<close>. An int is converted to a float
  first.
\<close>

fun py_mul :: "pyval \<Rightarrow> real \<Rightarrow> py_error + pyfloat" where
  "py_mul PNone c = Inl TypeError"
| "py_mul (PStr s) c = Inl TypeError"
| "py_mul (PBool b) c = Inr (scale (Finite (if b then 1 else 0)) c)"
| "py_mul (PInt n) c =
     (if float_limit \<le> \<bar>n\<bar> then Inl OverflowError
      else Inr (scale (Finite (fl (real_of_int n))) c))"
| "py_mul (PFloat x) c = Inr (scale x c)"

text \<open>
  \<open>round(x, 2)\<close>: the exact value of the double is rounded to the nearest multiple of
  0.01, a tie to the even one, and the double nearest to that decimal is returned. A
  zero, an infinity and NaN round to themselves.
\<close>

fun py_round2 :: "pyfloat \<Rightarrow> pyfloat" where
  "py_round2 (Finite x) = to_float (x < 0) (real_of_int (half_even (x * 100)) / 100)"
| "py_round2 x = x"

text \<open>
  What \<open>half_even\<close> is to compute: \<open>k\<close> is the integer nearest to \<open>y\<close>, and even
  when \<open>y\<close> lies halfway between two integers.
\<close>

definition nearest_even :: "real \<Rightarrow> int \<Rightarrow> bool" where
  "nearest_even y k =
     (\<bar>real_of_int k - y\<bar> < 1 / 2 \<or> (\<bar>real_of_int k - y\<bar> = 1 / 2 \<and> even k))"

text \<open>\<open>v[:10]\<close>: only a string can be sliced.\<close>

fun py_slice10 :: "pyval \<Rightarrow> py_error + pyval" where
  "py_slice10 (PStr s) = Inr (PStr (take 10 s))"
| "py_slice10 v = Inl TypeError"

subsection \<open>The compact field set (the two GUI programs)\<close>

text \<open>A row is a dict whose key order matters: it gives the CSV columns.\<close>

type_synonym row = "(string \<times> pyval) list"

text \<open>
  \<open>if avg_speed_kmh: avg_speed_kmh = round(avg_speed_kmh * 3.6, 2)\<close>, the
  conversion from m/s to km/h of a value already read with default \<open>0\<close>.
\<close>

definition to_kmh :: "pyval \<Rightarrow> py_error + pyval" where
  "to_kmh v =
     (if truthy v
      then (case py_mul v c36 of
              Inl e \<Rightarrow> Inl e
            | Inr x \<Rightarrow> Inr (PFloat (py_round2 x)))
      else Inr v)"

text \<open>\<open>round(activity.get(key, 0) / d, 2)\<close>.\<close>

definition round_div :: "activity \<Rightarrow> string \<Rightarrow> int \<Rightarrow> py_error + pyval" where
  "round_div activity key d =
     (case py_truediv (dict_get_default activity key (PInt 0)) d of
        Inl e \<Rightarrow> Inl e
      | Inr x \<Rightarrow> Inr (PFloat (py_round2 x)))"

definition extract_activity_data :: "activity \<Rightarrow> py_error + row" where
  "extract_activity_data activity =
     (case to_kmh (dict_get_default activity ''average_speed'' (PInt 0)) of
        Inl e \<Rightarrow> Inl e
      | Inr avg_speed_kmh \<Rightarrow>
     (case to_kmh (dict_get_default activity ''max_speed'' (PInt 0)) of
        Inl e \<Rightarrow> Inl e
      | Inr max_speed_kmh \<Rightarrow>
     (case round_div activity ''distance'' 1000 of
        Inl e \<Rightarrow> Inl e
      | Inr distance \<Rightarrow>
     (case round_div activity ''moving_time'' 60 of
        Inl e \<Rightarrow> Inl e
      | Inr moving_time \<Rightarrow>
     Inr [(''id'', dict_get activity ''id''),
          (''name'', dict_get activity ''name''),
          (''distance'', distance),
          (''moving_time'', moving_time),
          (''elapsed_time'', dict_get activity ''elapsed_time''),
          (''total_elevation_gain'', dict_get activity ''total_elevation_gain''),
          (''start_date'', dict_get_default activity ''start_date'' (PStr [])),
          (''average_speed'', avg_speed_kmh),
          (''max_speed'', max_speed_kmh),
          (''average_temp'', dict_get activity ''average_temp''),
          (''elev_high'', dict_get activity ''elev_high''),
          (''elev_low'', dict_get activity ''elev_low''),
          (''calories'', dict_get activity ''calories''),
          (''pr_count'', dict_get activity ''pr_count'')]))))"

definition compact_fields :: "string list" where
  "compact_fields =
     [''id'', ''name'', ''distance'', ''moving_time'', ''elapsed_time'',
      ''total_elevation_gain'', ''start_date'', ''average_speed'', ''max_speed'',
      ''average_temp'', ''elev_high'', ''elev_low'', ''calories'', ''pr_count'']"

subsection \<open>The extended field set (the command-line program)\<close>

definition extract_activity_data_cli :: "activity \<Rightarrow> py_error + row" where
  "extract_activity_data_cli activity =
     (case py_slice10 (dict_get_default activity ''start_date'' (PStr [])) of
        Inl e \<Rightarrow> Inl e
      | Inr date \<Rightarrow>
     (case round_div activity ''distance'' 1000 of
        Inl e \<Rightarrow> Inl e
      | Inr distance_km \<Rightarrow>
     (case round_div activity ''moving_time'' 60 of
        Inl e \<Rightarrow> Inl e
      | Inr moving_time_min \<Rightarrow>
     Inr [(''id'', dict_get activity ''id''),
          (''name'', dict_get activity ''name''),
          (''type'', dict_get activity ''type''),
          (''date'', date),
          (''start_time'', dict_get_default activity ''start_date'' (PStr [])),
          (''distance_m'', dict_get activity ''distance''),
          (''distance_km'', distance_km),
          (''moving_time_s'', dict_get activity ''moving_time''),
          (''moving_time_min'', moving_time_min),
          (''elapsed_time_s'', dict_get activity ''elapsed_time''),
          (''elevation_gain_m'', dict_get activity ''total_elevation_gain''),
          (''average_speed_ms'', dict_get activity ''average_speed''),
          (''max_speed_ms'', dict_get activity ''max_speed''),
          (''average_hr'', dict_get activity ''average_heartrate''),
          (''max_hr'', dict_get activity ''max_heartrate''),
          (''calories'', dict_get activity ''calories''),
          (''location'', dict_get_default activity ''location_city'' (PStr [])),
          (''kudos'', dict_get activity ''kudos_count''),
          (''commute'', dict_get activity ''commute''),
          (''trainer'', dict_get activity ''trainer''),
          (''manual'', dict_get activity ''manual'')])))"

definition extended_fields :: "string list" where
  "extended_fields =
     [''id'', ''name'', ''type'', ''date'', ''start_time'', ''distance_m'', ''distance_km'',
      ''moving_time_s'', ''moving_time_min'', ''elapsed_time_s'', ''elevation_gain_m'',
      ''average_speed_ms'', ''max_speed_ms'', ''average_hr'', ''max_hr'', ''calories'',
      ''location'', ''kudos'', ''commute'', ''trainer'', ''manual'']"

text \<open>
  The values for which the conversions above do not raise: a number, an int within the
  range of the operation.
\<close>

fun divisible :: "pyval \<Rightarrow> int \<Rightarrow> bool" where
  "divisible (PBool b) d = True"
| "divisible (PInt n) d = (\<bar>n\<bar> < float_limit * d)"
| "divisible (PFloat x) d = True"
| "divisible v d = False"

fun convertible :: "pyval \<Rightarrow> bool" where
  "convertible (PBool b) = True"
| "convertible (PInt n) = (\<bar>n\<bar> < float_limit)"
| "convertible (PFloat x) = True"
| "convertible PNone = True"
| "convertible (PStr s) = (s = [])"

fun is_string :: "pyval \<Rightarrow> bool" where
  "is_string (PStr s) = True"
| "is_string v = False"

definition compact_ok :: "activity \<Rightarrow> bool" where
  "compact_ok a =
     (convertible (dict_get_default a ''average_speed'' (PInt 0)) \<and>
      convertible (dict_get_default a ''max_speed'' (PInt 0)) \<and>
      divisible (dict_get_default a ''distance'' (PInt 0)) 1000 \<and>
      divisible (dict_get_default a ''moving_time'' (PInt 0)) 60)"

definition extended_ok :: "activity \<Rightarrow> bool" where
  "extended_ok a =
     (is_string (dict_get_default a ''start_date'' (PStr [])) \<and>
      divisible (dict_get_default a ''distance'' (PInt 0)) 1000 \<and>
      divisible (dict_get_default a ''moving_time'' (PInt 0)) 60)"

text \<open>
  For each field of a row: its name, the key of the activity it is read from, and its
  value when that key is missing.
\<close>

definition compact_sources :: "(string \<times> string \<times> pyval) list" where
  "compact_sources =
     [(''id'', ''id'', PNone),
      (''name'', ''name'', PNone),
      (''distance'', ''distance'', PFloat (Finite 0)),
      (''moving_time'', ''moving_time'', PFloat (Finite 0)),
      (''elapsed_time'', ''elapsed_time'', PNone),
      (''total_elevation_gain'', ''total_elevation_gain'', PNone),
      (''start_date'', ''start_date'', PStr []),
      (''average_speed'', ''average_speed'', PInt 0),
      (''max_speed'', ''max_speed'', PInt 0),
      (''average_temp'', ''average_temp'', PNone),
      (''elev_high'', ''elev_high'', PNone),
      (''elev_low'', ''elev_low'', PNone),
      (''calories'', ''calories'', PNone),
      (''pr_count'', ''pr_count'', PNone)]"

definition extended_sources :: "(string \<times> string \<times> pyval) list" where
  "extended_sources =
     [(''id'', ''id'', PNone),
      (''name'', ''name'', PNone),
      (''type'', ''type'', PNone),
      (''date'', ''start_date'', PStr []),
      (''start_time'', ''start_date'', PStr []),
      (''distance_m'', ''distance'', PNone),
      (''distance_km'', ''distance'', PFloat (Finite 0)),
      (''moving_time_s'', ''moving_time'', PNone),
      (''moving_time_min'', ''moving_time'', PFloat (Finite 0)),
      (''elapsed_time_s'', ''elapsed_time'', PNone),
      (''elevation_gain_m'', ''total_elevation_gain'', PNone),
      (''average_speed_ms'', ''average_speed'', PNone),
      (''max_speed_ms'', ''max_speed'', PNone),
      (''average_hr'', ''average_heartrate'', PNone),
      (''max_hr'', ''max_heartrate'', PNone),
      (''calories'', ''calories'', PNone),
      (''location'', ''location_city'', PStr []),
      (''kudos'', ''kudos_count'', PNone),
      (''commute'', ''commute'', PNone),
      (''trainer'', ''trainer'', PNone),
      (''manual'', ''manual'', PNone)]"

section \<open>The CSV export\<close>

subsection \<open>Writing: \<open>csv.DictWriter\<close> with the default dialect\<close>

text \<open>
  The default dialect separates cells by a comma, ends a record with CR LF, and quotes
  a field only when it holds a comma, a quote or a line break, doubling the quotes
  inside.
\<close>

definition comma :: char where "comma = CHR '',''"
definition dquote :: char where "dquote = CHR 0x22"
definition cr :: char where "cr = CHR 0x0D"
definition lf :: char where "lf = CHR 0x0A"

definition special :: "char \<Rightarrow> bool" where
  "special c = (c = comma \<or> c = dquote \<or> c = cr \<or> c = lf)"

definition escape :: "string \<Rightarrow> string" where
  "escape s = concat (map (\<lambda>c. if c = dquote then [c, c] else [c]) s)"

definition csv_field :: "string \<Rightarrow> string" where
  "csv_field s = (if list_ex special s then dquote # escape s @ [dquote] else s)"

fun join_fields :: "string list \<Rightarrow> string" where
  "join_fields [] = []"
| "join_fields [f] = f"
| "join_fields (f # g # fs) = f @ comma # join_fields (g # fs)"

text \<open>A record whose only field is empty is written as a pair of quotes.\<close>

definition csv_record :: "string list \<Rightarrow> string" where
  "csv_record cells =
     (let line = join_fields (map csv_field cells)
      in (if line = [] \<and> cells \<noteq> [] then [dquote, dquote] else line) @ [cr, lf])"

text \<open>
  \<open>str\<close> of a value. The decimal form of an int is computed; the text of a float is
  left to a parameter.
\<close>

fun show_nat :: "nat \<Rightarrow> string" where
  "show_nat n =
     (if n < 10 then [''0123456789'' ! n]
      else show_nat (n div 10) @ [''0123456789'' ! (n mod 10)])"

definition show_int :: "int \<Rightarrow> string" where
  "show_int n = (if n < 0 then CHR ''-'' # show_nat (nat (- n)) else show_nat (nat n))"

fun py_str :: "(pyfloat \<Rightarrow> string) \<Rightarrow> pyval \<Rightarrow> string" where
  "py_str float_repr PNone = ''None''"
| "py_str float_repr (PBool b) = (if b then ''True'' else ''False'')"
| "py_str float_repr (PInt n) = show_int n"
| "py_str float_repr (PFloat x) = float_repr x"
| "py_str float_repr (PStr s) = s"

text \<open>The writer puts \<open>None\<close> as the empty field and everything else by \<open>str\<close>.\<close>

definition csv_cell :: "(pyfloat \<Rightarrow> string) \<Rightarrow> pyval \<Rightarrow> string" where
  "csv_cell float_repr v = (if v = PNone then [] else py_str float_repr v)"

text \<open>
  \<open>DictWriter._dict_to_list\<close>: a key outside the field names raises \<open>ValueError\<close>,
  a field name without a value gives the empty string.
\<close>

definition dict_to_list :: "string list \<Rightarrow> row \<Rightarrow> py_error + pyval list" where
  "dict_to_list fieldnames rowdict =
     (if list_ex (\<lambda>k. k \<notin> set fieldnames) (map fst rowdict) then Inl ValueError
      else Inr (map (\<lambda>key. case map_of rowdict key of None \<Rightarrow> PStr [] | Some v \<Rightarrow> v)
                    fieldnames))"

subsection \<open>\<open>export_to_csv\<close>\<close>

text \<open>
  The files by path, and the paths that \<open>open(filename, "w")\<close> accepts. Writing to
  an open file is taken to succeed.
\<close>

record filesystem =
  files :: "string \<rightharpoonup> string"
  openable :: "string \<Rightarrow> bool"

text \<open>
  The \<open>for\<close> loop: the text written so far, and the exception that ended the loop
  early if one did.
\<close>

fun write_rows ::
  "(activity \<Rightarrow> py_error + row) \<Rightarrow> (pyfloat \<Rightarrow> string) \<Rightarrow> string list \<Rightarrow> activity list
     \<Rightarrow> string \<Rightarrow> py_error option \<times> string" where
  "write_rows extract float_repr fieldnames [] out = (None, out)"
| "write_rows extract float_repr fieldnames (activity # rest) out =
     (case extract activity of
        Inl e \<Rightarrow> (Some e, out)
      | Inr extracted \<Rightarrow>
          (case dict_to_list fieldnames extracted of
             Inl e \<Rightarrow> (Some e, out)
           | Inr vals \<Rightarrow>
               write_rows extract float_repr fieldnames rest
                 (out @ csv_record (map (csv_cell float_repr) vals))))"

text \<open>
  The three programs share the body of \<open>export_to_csv\<close> and differ in the
  \<open>extract_activity_data\<close> it calls. An exception of the normalizer is not an
  \<open>IOError\<close>: it leaves the function, and the file keeps what was written.
\<close>

definition export_with ::
  "(activity \<Rightarrow> py_error + row) \<Rightarrow> (pyfloat \<Rightarrow> string) \<Rightarrow> filesystem \<Rightarrow> activity list
     \<Rightarrow> string \<Rightarrow> (py_error + bool) \<times> filesystem" where
  "export_with extract float_repr fs activity_list filename =
     (case activity_list of
        [] \<Rightarrow> (Inr False, fs)
      | first # rest \<Rightarrow>
          (case extract first of
             Inl e \<Rightarrow> (Inl e, fs)
           | Inr first_row \<Rightarrow>
               (let fieldnames = map fst first_row
                in if \<not> openable fs filename then (Inr False, fs)
                   else
                     (case write_rows extract float_repr fieldnames activity_list
                             (csv_record fieldnames) of
                        (Some e, out) \<Rightarrow> (Inl e, fs\<lparr>files := (files fs)(filename \<mapsto> out)\<rparr>)
                      | (None, out) \<Rightarrow>
                          (Inr True, fs\<lparr>files := (files fs)(filename \<mapsto> out)\<rparr>)))))"

definition export_to_csv ::
  "(pyfloat \<Rightarrow> string) \<Rightarrow> filesystem \<Rightarrow> activity list \<Rightarrow> string
     \<Rightarrow> (py_error + bool) \<times> filesystem" where
  "export_to_csv = export_with extract_activity_data"

definition export_to_csv_cli ::
  "(pyfloat \<Rightarrow> string) \<Rightarrow> filesystem \<Rightarrow> activity list \<Rightarrow> string
     \<Rightarrow> (py_error + bool) \<times> filesystem" where
  "export_to_csv_cli = export_with extract_activity_data_cli"

subsection \<open>Reading a CSV text back\<close>

text \<open>
  Modelled from the spec: the re-parsing of the written file, which no source file
  implements. It is a reader for the same dialect, one character at a time. A record ends
  at CR, LF or CR LF; a field that opens with a quote runs to the closing quote, two
  quotes inside standing for one.
\<close>

datatype mode =
    Start_record
  | After_cr
  | Start_field
  | In_field
  | In_quoted_field
  | Quote_in_quoted_field

type_synonym reader_state = "mode \<times> string \<times> string list"

definition end_record :: "char \<Rightarrow> string list \<Rightarrow> reader_state \<times> string list list" where
  "end_record c record = ((if c = cr then After_cr else Start_record, [], []), [record])"

definition begin_field :: "char \<Rightarrow> string list \<Rightarrow> reader_state \<times> string list list" where
  "begin_field c cells =
     (if c = dquote then ((In_quoted_field, [], cells), [])
      else if c = comma then ((Start_field, [], cells @ [[]]), [])
      else if c = cr \<or> c = lf then end_record c (cells @ [[]])
      else ((In_field, [c], cells), []))"

definition begin_record :: "char \<Rightarrow> reader_state \<times> string list list" where
  "begin_record c = (if c = cr \<or> c = lf then end_record c [] else begin_field c [])"

fun step :: "reader_state \<Rightarrow> char \<Rightarrow> reader_state \<times> string list list" where
  "step (Start_record, field, cells) c = begin_record c"
| "step (After_cr, field, cells) c =
     (if c = lf then ((Start_record, [], []), []) else begin_record c)"
| "step (Start_field, field, cells) c = begin_field c cells"
| "step (In_field, field, cells) c =
     (if c = comma then ((Start_field, [], cells @ [field]), [])
      else if c = cr \<or> c = lf then end_record c (cells @ [field])
      else ((In_field, field @ [c], cells), []))"
| "step (In_quoted_field, field, cells) c =
     (if c = dquote then ((Quote_in_quoted_field, field, cells), [])
      else ((In_quoted_field, field @ [c], cells), []))"
| "step (Quote_in_quoted_field, field, cells) c =
     (if c = dquote then ((In_quoted_field, field @ [c], cells), [])
      else if c = comma then ((Start_field, [], cells @ [field]), [])
      else if c = cr \<or> c = lf then end_record c (cells @ [field])
      else ((In_field, field @ [c], cells), []))"

fun finish :: "reader_state \<Rightarrow> string list list" where
  "finish (Start_record, field, cells) = []"
| "finish (After_cr, field, cells) = []"
| "finish (m, field, cells) = [cells @ [field]]"

fun reader :: "reader_state \<Rightarrow> string \<Rightarrow> string list list" where
  "reader s [] = finish s"
| "reader s (c # cs) = (case step s c of (s', out) \<Rightarrow> out @ reader s' cs)"

definition csv_parse :: "string \<Rightarrow> string list list" where
  "csv_parse text = reader (Start_record, [], []) text"

text \<open>
  What a table of the export holds for one activity: the names and the cells of its
  row, the cells as the writer puts them. A file is its records one after the other.
\<close>

definition row_names :: "(activity \<Rightarrow> py_error + row) \<Rightarrow> activity \<Rightarrow> string list" where
  "row_names extract a = (case extract a of Inl e \<Rightarrow> [] | Inr r \<Rightarrow> map fst r)"

definition row_cells ::
  "(activity \<Rightarrow> py_error + row) \<Rightarrow> (pyfloat \<Rightarrow> string) \<Rightarrow> activity \<Rightarrow> string list" where
  "row_cells extract float_repr a =
     (case extract a of Inl e \<Rightarrow> [] | Inr r \<Rightarrow> map (\<lambda>(k, v). csv_cell float_repr v) r)"

definition table_text :: "string list list \<Rightarrow> string" where
  "table_text records = concat (map csv_record records)"

section \<open>Facts about the loop\<close>

lemma while_true_stop: "b s = Inl r \<Longrightarrow> while_true b s = Some r"
  by (subst while_true.simps) simp

lemma while_true_next: "b s = Inr s' \<Longrightarrow> while_true b s = while_true b s'"
  by (subst while_true.simps) simp

lemma while_true_passes: "passes b k s = Some s' \<Longrightarrow> while_true b s = while_true b s'"
proof (induction k arbitrary: s')
  case 0
  then show ?case by simp
next
  case (Suc k)
  then obtain s1 where s1: "passes b k s = Some s1" and last: "b s1 = Inr s'"
    by (auto split: option.splits sum.splits)
  from s1 have "while_true b s = while_true b s1" by (rule Suc.IH)
  also from last have "\<dots> = while_true b s'" by (rule while_true_next)
  finally show ?case .
qed

lemma loop_body_cases:
  "loop_body up a b pp cap st = Inr st' \<Longrightarrow>
     page st' = page st + 1 \<and>
     sent st' = sent st @ [\<lparr>q_after = a, q_before = b, q_page = page st, q_per_page = pp\<rparr>] \<and>
     activities st' = activities st @ records_of (up \<lparr>q_after = a, q_before = b, q_page = page st, q_per_page = pp\<rparr>)"
  by (auto simp: loop_body_def Let_def records_of_def json_def split: reply.splits if_splits option.splits sum.splits body.splits)

lemma fetch_body_next:
  assumes "fetch_body up sd ed pp cap st = Inr st'"
  shows "page st' = page st + 1"
    and "sent st' = sent st @ [page_query sd ed pp (page st)]"
    and "activities st' = activities st @ records_of (up (page_query sd ed pp (page st)))"
  using loop_body_cases [OF assms [unfolded fetch_body_def]]
  by (simp_all add: page_query_def)

lemma passes_fetch:
  assumes "passes (fetch_body up sd ed pp cap) k initial_state = Some st"
  shows "page st = 1 + int k \<and>
         sent st = map (\<lambda>i. page_query sd ed pp (int i)) [1..<Suc k] \<and>
         activities st = first_pages up sd ed pp k"
  using assms
proof (induction k arbitrary: st)
  case 0
  then show ?case by (auto simp: initial_state_def first_pages_def)
next
  case (Suc k)
  then obtain s1 where s1: "passes (fetch_body up sd ed pp cap) k initial_state = Some s1"
    and last: "fetch_body up sd ed pp cap s1 = Inr st"
    by (auto split: option.splits sum.splits)
  from Suc.IH [OF s1] fetch_body_next [OF last]
  show ?case by (simp add: first_pages_def)
qed


lemma fetch_loop_passes:
  assumes "passes (fetch_body up sd ed pp cap) k initial_state = Some st"
      and "fetch_body up sd ed pp cap st = Inl r"
  shows "fetch_loop up sd ed pp cap = Some r"
  unfolding fetch_loop_def
  using while_true_passes [OF assms(1)]
    while_true_stop [of "fetch_body up sd ed pp cap" st r, OF assms(2)] by simp

lemma fetch_body_at:
  assumes "page st = n"
  shows "fetch_body up sd ed pp cap st =
     (let st1 = st\<lparr>sent := sent st @ [page_query sd ed pp n]\<rparr>
      in case up (page_query sd ed pp n) of
           Raises e \<Rightarrow> Inl (Request_failed e, st1)
         | Response status b \<Rightarrow>
             if status = 401 then Inl (Auth_failed, st1)
             else if status = 429 then Inl (Rate_limited, st1)
             else (case raise_for_status status of
                     Some e \<Rightarrow> Inl (Request_failed e, st1)
                   | None \<Rightarrow>
                       (case json b of
                          Inl e \<Rightarrow> Inl (Request_failed e, st1)
                        | Inr page_activities \<Rightarrow>
                            if page_activities = [] then Inl (Exhausted, st1)
                            else
                              (let acts = activities st @ page_activities
                               in if limit_reached cap acts
                                  then Inl (Cap_reached,
                                            st1\<lparr>activities := slice_to acts (the cap)\<rparr>)
                                  else Inr (st1\<lparr>activities := acts, page := n + 1\<rparr>)))))"
  using assms
  by (simp add: fetch_body_def loop_body_def page_query_def Let_def
        split: reply.splits option.splits sum.splits)

section \<open>Exits of the fetch\<close>

lemma first_pages_Suc:
  "first_pages up sd ed pp (Suc k) =
     first_pages up sd ed pp k @ records_of (up (page_query sd ed pp (1 + int k)))"
  by (simp add: first_pages_def)

lemma exhausted_exit:
  assumes "passes (fetch_body up sd ed pp cap) k initial_state = Some st"
      and "up (page_query sd ed pp (1 + int k)) = Response status (Array [])"
      and "raise_for_status status = None"
  shows "fetch_loop up sd ed pp cap =
           Some (Exhausted,
                 \<lparr>activities = first_pages up sd ed pp k,
                  page = 1 + int k,
                  sent = map (\<lambda>i. page_query sd ed pp (int i)) [1..<Suc (Suc k)]\<rparr>)"
proof -
  from passes_fetch [OF assms(1)]
  have pg: "page st = 1 + int k"
    and sn: "sent st = map (\<lambda>i. page_query sd ed pp (int i)) [1..<Suc k]"
    and ac: "activities st = first_pages up sd ed pp k"
    by simp_all
  have st: "status \<noteq> 401" "status \<noteq> 429"
    using assms(3) by (auto simp: raise_for_status_def split: if_splits)
  have "fetch_body up sd ed pp cap st =
          Inl (Exhausted,
               \<lparr>activities = first_pages up sd ed pp k,
                page = 1 + int k,
                sent = map (\<lambda>i. page_query sd ed pp (int i)) [1..<Suc (Suc k)]\<rparr>)"
    using pg sn ac
    by (simp add: fetch_body_at [OF pg] assms(2,3) st json_def)
  from fetch_loop_passes [OF assms(1) this] show ?thesis .
qed

lemma loop_body_zero_cap:
  "loop_body up a b pp (Some 0) = loop_body up a b pp None"
  by (rule ext)
    (simp add: loop_body_def limit_reached_def Let_def
       split: reply.splits option.splits sum.splits)

text \<open>
  Claim C1. Whenever a page is answered with status 401, also after \<open>k\<close> earlier
  pages were fetched and their records accumulated, the fetch ends at once: the GUI
  programs return \<open>None\<close> and the command-line program returns the empty list, so
  none of the accumulated records is returned, and the rejected request is the last one
  sent.
\<close>

theorem auth_failure_discards:
  assumes "passes (fetch_body up sd ed pp cap) k initial_state = Some st"
      and "up (page_query sd ed pp (1 + int k)) = Response 401 b"
  shows "fetch_loop up sd ed pp cap =
           Some (Auth_failed, st\<lparr>sent := sent st @ [page_query sd ed pp (1 + int k)]\<rparr>)
         \<and> get_activities up sd ed pp cap = Some PyNone
         \<and> get_activities_cli up sd ed pp cap = Some []"
proof -
  from passes_fetch [OF assms(1)] have pg: "page st = 1 + int k" by simp
  have "fetch_body up sd ed pp cap st =
          Inl (Auth_failed, st\<lparr>sent := sent st @ [page_query sd ed pp (1 + int k)]\<rparr>)"
    by (simp add: fetch_body_at [OF pg] assms(2))
  from fetch_loop_passes [OF assms(1) this] show ?thesis
    by (simp add: get_activities_def get_activities_cli_def gui_result_def cli_result_def)
qed

theorem auth_failure_discards_witness:
  "passes (fetch_body (pages_then [[Map.empty, Map.empty]] (Response 401 Malformed)) 0 86400 200 None)
      (Suc 0) initial_state
     = Some \<lparr>activities = [Map.empty, Map.empty], page = 2,
             sent = [page_query 0 86400 200 1]\<rparr>
   \<and> get_activities (pages_then [[Map.empty, Map.empty]] (Response 401 Malformed)) 0 86400 200 None
       = Some PyNone
   \<and> get_activities_cli (pages_then [[Map.empty, Map.empty]] (Response 401 Malformed)) 0 86400 200 None
       = Some []"
proof -
  let ?up = "pages_then [[Map.empty, Map.empty]] (Response 401 Malformed)"
  have p: "passes (fetch_body ?up 0 86400 200 None) (Suc 0) initial_state
     = Some \<lparr>activities = [Map.empty, Map.empty], page = 2,
             sent = [page_query 0 86400 200 1]\<rparr>"
    by (simp add: fetch_body_def loop_body_def pages_then_def initial_state_def page_query_def
          raise_for_status_def json_def limit_reached_def py_int_def)
  have q: "?up (page_query 0 86400 200 (1 + int (Suc 0))) = Response 401 Malformed"
    by (simp add: pages_then_def page_query_def)
  from auth_failure_discards [OF p q] p show ?thesis by simp
qed

text \<open>
  Claim C2. With a positive \<open>max_activities\<close>, the first page that brings the
  accumulated count to the bound or beyond ends the fetch: the result is the accumulated
  list cut to exactly \<open>max_activities\<close> records, it is returned as a list, and the
  requests sent are those for the pages up to this one, with none after it. In the
  example (bound 50, every page 200 records) one request is sent.
\<close>

theorem cap_truncates:
  assumes "passes (fetch_body up sd ed pp (Some m)) k initial_state = Some st"
      and "0 < m"
      and "up (page_query sd ed pp (1 + int k)) = Response status (Array recs)"
      and "raise_for_status status = None"
      and "recs \<noteq> []"
      and "m \<le> int (length (first_pages up sd ed pp (Suc k)))"
  shows "fetch_loop up sd ed pp (Some m) =
           Some (Cap_reached,
                 \<lparr>activities = take (nat m) (first_pages up sd ed pp (Suc k)),
                  page = 1 + int k,
                  sent = map (\<lambda>i. page_query sd ed pp (int i)) [1..<Suc (Suc k)]\<rparr>)
         \<and> get_activities up sd ed pp (Some m)
             = Some (PyList (take (nat m) (first_pages up sd ed pp (Suc k))))
         \<and> get_activities_cli up sd ed pp (Some m)
             = Some (take (nat m) (first_pages up sd ed pp (Suc k)))
         \<and> int (length (take (nat m) (first_pages up sd ed pp (Suc k)))) = m"
proof -
  from passes_fetch [OF assms(1)]
  have pg: "page st = 1 + int k"
    and sn: "sent st = map (\<lambda>i. page_query sd ed pp (int i)) [1..<Suc k]"
    and ac: "activities st = first_pages up sd ed pp k"
    by simp_all
  have all: "first_pages up sd ed pp (Suc k) = activities st @ recs"
    by (simp add: first_pages_Suc assms(3) records_of_def ac)
  have st: "status \<noteq> 401" "status \<noteq> 429"
    using assms(4) by (auto simp: raise_for_status_def split: if_splits)
  have lim: "limit_reached (Some m) (activities st @ recs)"
    using assms(2,6) by (simp add: limit_reached_def all)
  have "fetch_body up sd ed pp (Some m) st =
          Inl (Cap_reached,
               \<lparr>activities = take (nat m) (first_pages up sd ed pp (Suc k)),
                page = 1 + int k,
                sent = map (\<lambda>i. page_query sd ed pp (int i)) [1..<Suc (Suc k)]\<rparr>)"
    using assms(2) pg sn
    by (simp add: fetch_body_at [OF pg] assms(3,4,5) st json_def lim slice_to_def all)
  from fetch_loop_passes [OF assms(1) this] assms(2,6) show ?thesis
    by (simp add: get_activities_def get_activities_cli_def gui_result_def cli_result_def)
qed

theorem cap_truncates_witness:
  "get_activities (pages_then [replicate 200 Map.empty, replicate 200 Map.empty] (Response 200 (Array [])))
      0 86400 200 (Some 50)
     = Some (PyList (replicate 50 Map.empty))
   \<and> length (replicate 50 (Map.empty :: activity)) = 50
   \<and> fetch_loop (pages_then [replicate 200 Map.empty, replicate 200 Map.empty] (Response 200 (Array [])))
      0 86400 200 (Some 50)
       = Some (Cap_reached,
               \<lparr>activities = replicate 50 Map.empty, page = 1, sent = [page_query 0 86400 200 1]\<rparr>)"
proof -
  let ?up = "pages_then [replicate 200 Map.empty, replicate 200 Map.empty] (Response 200 (Array []))"
  have ne: "replicate 200 (Map.empty :: activity) \<noteq> []" by simp
  have p: "passes (fetch_body ?up 0 86400 200 (Some 50)) 0 initial_state = Some initial_state"
    by simp
  have q: "?up (page_query 0 86400 200 (1 + int 0)) = Response 200 (Array (replicate 200 Map.empty))"
    by (simp add: pages_then_def page_query_def)
  have r: "raise_for_status 200 = None" by (simp add: raise_for_status_def)
  have f: "first_pages ?up 0 86400 200 (Suc 0) = replicate 200 Map.empty"
    by (simp add: first_pages_def records_of_def pages_then_def page_query_def)
  have m: "(50::int) \<le> int (length (first_pages ?up 0 86400 200 (Suc 0)))"
    by (simp add: f)
  have t: "take 50 (replicate 200 (Map.empty :: activity)) = replicate 50 Map.empty"
    by simp
  from cap_truncates [OF p _ q r ne m] f t show ?thesis by simp
qed

text \<open>
  Claim C3. Without a bound, a page with no records ends the fetch normally: the result
  is the list of all records of the earlier pages, and the empty page is the last request.
  In the example (200 records on page 1, none on page 2) the result has 200 records after
  2 requests.
\<close>

theorem empty_page_ends:
  assumes "passes (fetch_body up sd ed pp None) k initial_state = Some st"
      and "up (page_query sd ed pp (1 + int k)) = Response status (Array [])"
      and "raise_for_status status = None"
  shows "fetch_loop up sd ed pp None =
           Some (Exhausted,
                 \<lparr>activities = first_pages up sd ed pp k,
                  page = 1 + int k,
                  sent = map (\<lambda>i. page_query sd ed pp (int i)) [1..<Suc (Suc k)]\<rparr>)
         \<and> get_activities up sd ed pp None = Some (PyList (first_pages up sd ed pp k))
         \<and> get_activities_cli up sd ed pp None = Some (first_pages up sd ed pp k)"
  using exhausted_exit [OF assms]
  by (simp add: get_activities_def get_activities_cli_def gui_result_def cli_result_def)

theorem empty_page_ends_witness:
  "passes (fetch_body (pages_then [replicate 200 Map.empty] (Response 200 (Array []))) 0 86400 200 None)
      (Suc 0) initial_state
     = Some \<lparr>activities = replicate 200 Map.empty, page = 2, sent = [page_query 0 86400 200 1]\<rparr>
   \<and> get_activities (pages_then [replicate 200 Map.empty] (Response 200 (Array []))) 0 86400 200 None
       = Some (PyList (replicate 200 Map.empty))
   \<and> length (replicate 200 (Map.empty :: activity)) = 200
   \<and> fetch_loop (pages_then [replicate 200 Map.empty] (Response 200 (Array []))) 0 86400 200 None
       = Some (Exhausted,
               \<lparr>activities = replicate 200 Map.empty, page = 2,
                sent = [page_query 0 86400 200 1, page_query 0 86400 200 2]\<rparr>)"
proof -
  let ?up = "pages_then [replicate 200 Map.empty] (Response 200 (Array []))"
  have ne: "replicate 200 (Map.empty :: activity) \<noteq> []" by simp
  have p: "passes (fetch_body ?up 0 86400 200 None) (Suc 0) initial_state
     = Some \<lparr>activities = replicate 200 Map.empty, page = 2, sent = [page_query 0 86400 200 1]\<rparr>"
    using ne
    by (simp add: fetch_body_def loop_body_def pages_then_def initial_state_def page_query_def
          raise_for_status_def json_def limit_reached_def)
  have q: "?up (page_query 0 86400 200 (1 + int (Suc 0))) = Response 200 (Array [])"
    by (simp add: pages_then_def page_query_def)
  have r: "raise_for_status 200 = None" by (simp add: raise_for_status_def)
  have f: "first_pages ?up 0 86400 200 (Suc 0) = replicate 200 Map.empty"
    by (simp add: first_pages_def records_of_def pages_then_def page_query_def)
  from empty_page_ends [OF p q r] p f show ?thesis by simp
qed



text \<open>
  Claim C10. A bound of \<open>0\<close> is the same as no bound: the loop, and so the result of
  every fetch, is the one without a bound, and the result can have any number of records
  (here the \<open>n + 1\<close> records of the only page).
\<close>

theorem zero_cap_is_no_cap:
  "fetch_loop up sd ed pp (Some 0) = fetch_loop up sd ed pp None
   \<and> get_activities up sd ed pp (Some 0) = get_activities up sd ed pp None
   \<and> get_activities_cli up sd ed pp (Some 0) = get_activities_cli up sd ed pp None
   \<and> get_activities (pages_then [replicate (Suc n) a] (Response 200 (Array []))) sd ed pp (Some 0)
       = Some (PyList (replicate (Suc n) a))"
proof -
  have eq: "fetch_loop up sd ed pp (Some 0) = fetch_loop up sd ed pp None" for up
    by (simp add: fetch_loop_def fetch_body_def loop_body_zero_cap)
  let ?up = "pages_then [replicate (Suc n) a] (Response 200 (Array []))"
  have p: "passes (fetch_body ?up sd ed pp None) (Suc 0) initial_state
     = Some \<lparr>activities = replicate (Suc n) a, page = 2, sent = [page_query sd ed pp 1]\<rparr>"
    by (simp add: fetch_body_def loop_body_def pages_then_def initial_state_def page_query_def
          raise_for_status_def json_def limit_reached_def)
  have q: "?up (page_query sd ed pp (1 + int (Suc 0))) = Response 200 (Array [])"
    by (simp add: pages_then_def page_query_def)
  have r: "raise_for_status 200 = None" by (simp add: raise_for_status_def)
  have "first_pages ?up sd ed pp (Suc 0) = replicate (Suc n) a"
    by (simp add: first_pages_def records_of_def pages_then_def page_query_def)
  with exhausted_exit [OF p q r] eq show ?thesis
    by (simp add: get_activities_def get_activities_cli_def gui_result_def)
qed

section \<open>Facts about the normalizer\<close>

subsection \<open>Rounding\<close>

lemma float_limit_pos: "0 < float_limit"
  by (simp add: float_limit_def)

lemma half_even_0: "half_even 0 = 0"
  by (simp add: half_even_def)

lemma fl_0: "fl 0 = 0"
  by (simp add: fl_def)

lemma to_float_0: "to_float negative 0 = (if negative then NegZero else Finite 0)"
  using float_limit_pos by (simp add: to_float_def fl_0)

lemma py_round2_0: "py_round2 (Finite 0) = Finite 0"
  by (simp add: half_even_0 to_float_0)

lemma half_even_nearest: "nearest_even y (half_even y)"
proof -
  define f where "f = \<lfloor>y\<rfloor>"
  define r where "r = y - real_of_int f"
  have r: "0 \<le> r" "r < 1" unfolding r_def f_def by linarith+
  have y: "y = real_of_int f + r" by (simp add: r_def)
  have h: "half_even y =
      (if r < 1 / 2 then f else if 1 / 2 < r then f + 1 else if even f then f else f + 1)"
    by (simp add: half_even_def Let_def f_def r_def)
  consider "r < 1 / 2" | "1 / 2 < r" | "r = 1 / 2" "even f" | "r = 1 / 2" "odd f"
    by fastforce
  then show ?thesis
  proof cases
    case 1
    then have "half_even y = f" by (simp add: h)
    with 1 r show ?thesis unfolding nearest_even_def r_def by simp
  next
    case 2
    then have "half_even y = f + 1" by (simp add: h)
    with 2 r show ?thesis unfolding nearest_even_def r_def by simp
  next
    case 3
    then have "half_even y = f" by (simp add: h)
    with 3 show ?thesis unfolding nearest_even_def r_def by simp
  next
    case 4
    then have "half_even y = f + 1" by (simp add: h)
    with 4 show ?thesis unfolding nearest_even_def r_def by simp
  qed
qed

lemma nearest_even_unique:
  assumes "nearest_even y k"
  shows "k = half_even y"
proof -
  let ?h = "half_even y"
  have h: "nearest_even y ?h" by (rule half_even_nearest)
  from assms have k1: "\<bar>real_of_int k - y\<bar> \<le> 1 / 2" by (auto simp: nearest_even_def)
  from h have h1: "\<bar>real_of_int ?h - y\<bar> \<le> 1 / 2" by (auto simp: nearest_even_def)
  from k1 h1 have "\<bar>real_of_int k - real_of_int ?h\<bar> \<le> 1" by linarith
  then have d: "\<bar>k - ?h\<bar> \<le> 1" by linarith
  show ?thesis
  proof (rule ccontr)
    assume ne: "k \<noteq> ?h"
    with d have one: "\<bar>k - ?h\<bar> = 1" by linarith
    then have r1: "\<bar>real_of_int k - real_of_int ?h\<bar> = 1" by linarith
    from r1 k1 h1 have e: "\<bar>real_of_int k - y\<bar> = 1 / 2" "\<bar>real_of_int ?h - y\<bar> = 1 / 2"
      by linarith+
    with assms h have "even k" "even ?h" by (auto simp: nearest_even_def)
    with one show False by presburger
  qed
qed

lemma expo_eq:
  assumes "2 powi e \<le> \<bar>r\<bar>" and "\<bar>r\<bar> < 2 powi (e + 1)" and "- 1022 \<le> e"
  shows "expo r = e"
proof -
  have p: "(0::real) < 2 powi e" by simp
  with assms(1) have pos: "0 < \<bar>r\<bar>" by linarith
  have 1: "2 powr real_of_int n = (2::real) powi n" for n
    by (simp add: powr_real_of_int')
  from 1 [of "e + 1"] have 2: "2 powr (real_of_int e + 1) = (2::real) powi (e + 1)" by simp
  have "\<lfloor>log 2 \<bar>r\<bar>\<rfloor> = e"
    using assms(1,2) pos by (simp add: floor_log_eq_powr_iff 1 2)
  with assms(3) show ?thesis by (simp add: expo_def)
qed

lemma fl_eq:
  assumes "2 powi e \<le> \<bar>r\<bar>" and "\<bar>r\<bar> < 2 powi (e + 1)" and "- 1022 \<le> e"
  shows "fl r = real_of_int (half_even (r / 2 powi (e - 52))) * 2 powi (e - 52)"
proof -
  have "(0::real) < 2 powi e" by simp
  with assms(1) have "0 < \<bar>r\<bar>" by linarith
  then have "r \<noteq> 0" by simp
  with expo_eq [OF assms] show ?thesis by (simp add: fl_def)
qed

lemma c36_value: "c36 = 8106479329266893 / 2251799813685248"
  unfolding c36_def
  by (subst fl_eq [where e = 1]) (simp_all add: half_even_def)

lemma to_float_Finite:
  assumes "fl r = y" and "y \<noteq> 0" and "\<bar>r\<bar> < real_of_int float_limit"
  shows "to_float negative r = Finite y"
  using assms by (simp add: to_float_def)

lemma limit_large: "2 ^ 64 < real_of_int float_limit"
  by (simp add: float_limit_def)

lemma py_round2_nearest:
  assumes "nearest_even (p * 100) k"
  shows "py_round2 (Finite p) = to_float (p < 0) (real_of_int k / 100)"
  using nearest_even_unique [OF assms] by simp

subsection \<open>Missing keys\<close>

lemma round_div_missing: "a k = None \<Longrightarrow> 0 < d \<Longrightarrow> round_div a k d = Inr (PFloat (Finite 0))"
proof -
  assume k: "a k = None" and d: "0 < d"
  from d float_limit_pos have "0 < float_limit * d" by (rule mult_pos_pos [rotated])
  then have "\<not> float_limit * d \<le> 0" by simp
  with k show ?thesis
    by (simp add: round_div_def dict_get_default_def to_float_0 half_even_0)
qed

lemma to_kmh_missing: "a k = None \<Longrightarrow> to_kmh (dict_get_default a k (PInt 0)) = Inr (PInt 0)"
  by (simp add: to_kmh_def dict_get_default_def)

lemma dict_get_missing: "a k = None \<Longrightarrow> dict_get a k = PNone"
  by (simp add: dict_get_def)

lemma dict_get_default_missing: "a k = None \<Longrightarrow> dict_get_default a k d = d"
  by (simp add: dict_get_default_def)

lemma extract_fields:
  assumes "extract_activity_data a = Inr row"
  shows "map fst row = compact_fields"
  using assms
  by (auto simp: extract_activity_data_def compact_fields_def split: sum.splits)

lemma extract_missing:
  assumes "extract_activity_data a = Inr row"
  shows "list_all (\<lambda>(f, k, d). a k = None \<longrightarrow> map_of row f = Some d) compact_sources"
proof -
  from assms(1) obtain av mx di mt where
    av: "to_kmh (dict_get_default a ''average_speed'' (PInt 0)) = Inr av" and
    mx: "to_kmh (dict_get_default a ''max_speed'' (PInt 0)) = Inr mx" and
    di: "round_div a ''distance'' 1000 = Inr di" and
    mt: "round_div a ''moving_time'' 60 = Inr mt" and
    row: "row = [(''id'', dict_get a ''id''),
          (''name'', dict_get a ''name''),
          (''distance'', di),
          (''moving_time'', mt),
          (''elapsed_time'', dict_get a ''elapsed_time''),
          (''total_elevation_gain'', dict_get a ''total_elevation_gain''),
          (''start_date'', dict_get_default a ''start_date'' (PStr [])),
          (''average_speed'', av),
          (''max_speed'', mx),
          (''average_temp'', dict_get a ''average_temp''),
          (''elev_high'', dict_get a ''elev_high''),
          (''elev_low'', dict_get a ''elev_low''),
          (''calories'', dict_get a ''calories''),
          (''pr_count'', dict_get a ''pr_count'')]"
    by (auto simp: extract_activity_data_def split: sum.splits)
  have 1: "a ''distance'' = None \<longrightarrow> di = PFloat (Finite 0)"
    using di round_div_missing [of a "''distance''" 1000] by auto
  have 2: "a ''moving_time'' = None \<longrightarrow> mt = PFloat (Finite 0)"
    using mt round_div_missing [of a "''moving_time''" 60] by auto
  have 3: "a ''average_speed'' = None \<longrightarrow> av = PInt 0"
    using av to_kmh_missing [of a "''average_speed''"] by auto
  have 4: "a ''max_speed'' = None \<longrightarrow> mx = PInt 0"
    using mx to_kmh_missing [of a "''max_speed''"] by auto
  show ?thesis
    unfolding compact_sources_def row
    using 1 2 3 4 by (simp add: dict_get_def dict_get_default_def)
qed

lemma extract_cli_fields:
  assumes "extract_activity_data_cli a = Inr row"
  shows "map fst row = extended_fields"
  using assms
  by (auto simp: extract_activity_data_cli_def extended_fields_def split: sum.splits)

lemma py_slice10_missing:
  "a k = None \<Longrightarrow> py_slice10 (dict_get_default a k (PStr [])) = Inr (PStr [])"
  by (simp add: dict_get_default_def)

lemma extract_cli_missing:
  assumes "extract_activity_data_cli a = Inr row"
  shows "list_all (\<lambda>(f, k, d). a k = None \<longrightarrow> map_of row f = Some d) extended_sources"
proof -
  from assms(1) obtain dt di mt where
    dt: "py_slice10 (dict_get_default a ''start_date'' (PStr [])) = Inr dt" and
    di: "round_div a ''distance'' 1000 = Inr di" and
    mt: "round_div a ''moving_time'' 60 = Inr mt" and
    row: "row = [(''id'', dict_get a ''id''),
          (''name'', dict_get a ''name''),
          (''type'', dict_get a ''type''),
          (''date'', dt),
          (''start_time'', dict_get_default a ''start_date'' (PStr [])),
          (''distance_m'', dict_get a ''distance''),
          (''distance_km'', di),
          (''moving_time_s'', dict_get a ''moving_time''),
          (''moving_time_min'', mt),
          (''elapsed_time_s'', dict_get a ''elapsed_time''),
          (''elevation_gain_m'', dict_get a ''total_elevation_gain''),
          (''average_speed_ms'', dict_get a ''average_speed''),
          (''max_speed_ms'', dict_get a ''max_speed''),
          (''average_hr'', dict_get a ''average_heartrate''),
          (''max_hr'', dict_get a ''max_heartrate''),
          (''calories'', dict_get a ''calories''),
          (''location'', dict_get_default a ''location_city'' (PStr [])),
          (''kudos'', dict_get a ''kudos_count''),
          (''commute'', dict_get a ''commute''),
          (''trainer'', dict_get a ''trainer''),
          (''manual'', dict_get a ''manual'')]"
    by (auto simp: extract_activity_data_cli_def split: sum.splits)
  have 1: "a ''distance'' = None \<longrightarrow> di = PFloat (Finite 0)"
    using di round_div_missing [of a "''distance''" 1000] by auto
  have 2: "a ''moving_time'' = None \<longrightarrow> mt = PFloat (Finite 0)"
    using mt round_div_missing [of a "''moving_time''" 60] by auto
  have 3: "a ''start_date'' = None \<longrightarrow> dt = PStr []"
    using dt py_slice10_missing [of a "''start_date''"] by auto
  show ?thesis
    unfolding extended_sources_def row
    using 1 2 3 by (simp add: dict_get_def dict_get_default_def)
qed

lemma to_kmh_returns: "(\<exists>y. to_kmh v = Inr y) = convertible v"
  using float_limit_pos by (cases v) (auto simp: to_kmh_def)

lemma py_truediv_returns: "(\<exists>y. py_truediv v d = Inr y) = divisible v d"
  by (cases v) auto

lemma round_div_returns:
  "(\<exists>y. round_div a k d = Inr y) = divisible (dict_get_default a k (PInt 0)) d"
  using py_truediv_returns [of "dict_get_default a k (PInt 0)" d]
  by (auto simp: round_div_def split: sum.splits)

lemma py_slice10_returns: "(\<exists>y. py_slice10 v = Inr y) = is_string v"
  by (cases v) auto

lemma extract_returns: "(\<exists>row. extract_activity_data a = Inr row) = compact_ok a"
  using to_kmh_returns [of "dict_get_default a ''average_speed'' (PInt 0)"]
    to_kmh_returns [of "dict_get_default a ''max_speed'' (PInt 0)"]
    round_div_returns [of a "''distance''" 1000]
    round_div_returns [of a "''moving_time''" 60]
  unfolding extract_activity_data_def compact_ok_def
  by (auto split: sum.splits)

lemma extract_cli_returns: "(\<exists>row. extract_activity_data_cli a = Inr row) = extended_ok a"
  using py_slice10_returns [of "dict_get_default a ''start_date'' (PStr [])"]
    round_div_returns [of a "''distance''" 1000]
    round_div_returns [of a "''moving_time''" 60]
  unfolding extract_activity_data_cli_def extended_ok_def
  by (auto split: sum.splits)

text \<open>
  Claim C4. The normalizer is not total on dicts of scalars: a \<open>distance\<close> that
  is present and \<open>null\<close> raises \<open>TypeError\<close> in the compact normalizer, and so
  does a \<open>null\<close> \<open>start_date\<close> in the extended one.
\<close>

theorem normalize_raises_counterexample:
  "extract_activity_data [''distance'' \<mapsto> PNone] = Inl TypeError
   \<and> extract_activity_data_cli [''start_date'' \<mapsto> PNone] = Inl TypeError"
  by (simp add: extract_activity_data_def extract_activity_data_cli_def to_kmh_def
        round_div_def dict_get_default_def)

text \<open>
  Claim C4, as the code has it. A normalizer returns a row exactly when every converted
  field has a usable value, and raises on every other activity. For the compact one:
  \<open>distance\<close> and \<open>moving_time\<close> are each missing, a bool, a float, or an int of
  magnitude below \<open>d * (2 ^ 1024 - 2 ^ 970)\<close> for the divisor \<open>d\<close> (1000 and 60);
  \<open>average_speed\<close> and \<open>max_speed\<close> are each missing, \<open>null\<close>, a bool, a float,
  the empty string, or an int of magnitude below \<open>2 ^ 1024 - 2 ^ 970\<close>. For the
  extended one: \<open>start_date\<close> is missing or a string, and \<open>distance\<close> and
  \<open>moving_time\<close> are as for the compact one.
\<close>

theorem normalize_returns:
  "(compact_ok a \<longrightarrow> (\<exists>row. extract_activity_data a = Inr row))
   \<and> (\<not> compact_ok a \<longrightarrow> (\<exists>e. extract_activity_data a = Inl e))
   \<and> (extended_ok a \<longrightarrow> (\<exists>row. extract_activity_data_cli a = Inr row))
   \<and> (\<not> extended_ok a \<longrightarrow> (\<exists>e. extract_activity_data_cli a = Inl e))"
  using extract_returns [of a] extract_cli_returns [of a]
  by (metis sum.exhaust)

theorem normalize_returns_witness:
  "compact_ok [''distance'' \<mapsto> PInt 10234, ''moving_time'' \<mapsto> PInt 3600,
               ''average_speed'' \<mapsto> PFloat (Finite 5), ''start_date'' \<mapsto> PNone]
   \<and> (\<exists>row. extract_activity_data
          [''distance'' \<mapsto> PInt 10234, ''moving_time'' \<mapsto> PInt 3600,
           ''average_speed'' \<mapsto> PFloat (Finite 5), ''start_date'' \<mapsto> PNone] = Inr row)
   \<and> \<not> extended_ok [''distance'' \<mapsto> PInt 10234, ''moving_time'' \<mapsto> PInt 3600,
               ''average_speed'' \<mapsto> PFloat (Finite 5), ''start_date'' \<mapsto> PNone]
   \<and> (\<exists>e. extract_activity_data_cli
          [''distance'' \<mapsto> PInt 10234, ''moving_time'' \<mapsto> PInt 3600,
           ''average_speed'' \<mapsto> PFloat (Finite 5), ''start_date'' \<mapsto> PNone] = Inl e)
   \<and> extended_ok [''distance'' \<mapsto> PInt 10234, ''start_date'' \<mapsto> PStr ''2025-11-24T06:30:00Z'']
   \<and> (\<exists>row. extract_activity_data_cli
          [''distance'' \<mapsto> PInt 10234, ''start_date'' \<mapsto> PStr ''2025-11-24T06:30:00Z''] = Inr row)
   \<and> \<not> compact_ok [''distance'' \<mapsto> PStr ''far'']
   \<and> (\<exists>e. extract_activity_data [''distance'' \<mapsto> PStr ''far''] = Inl e)"
proof -
  let ?a = "[''distance'' \<mapsto> PInt 10234, ''moving_time'' \<mapsto> PInt 3600,
               ''average_speed'' \<mapsto> PFloat (Finite 5), ''start_date'' \<mapsto> PNone]"
  let ?b = "[''distance'' \<mapsto> PInt 10234, ''start_date'' \<mapsto> PStr ''2025-11-24T06:30:00Z'']"
  let ?c = "[''distance'' \<mapsto> PStr ''far'']"
  have a: "compact_ok ?a" "\<not> extended_ok ?a"
    by (simp_all add: compact_ok_def extended_ok_def dict_get_default_def float_limit_def)
  have b: "extended_ok ?b"
    by (simp add: extended_ok_def dict_get_default_def float_limit_def)
  have c: "\<not> compact_ok ?c"
    by (simp add: compact_ok_def dict_get_default_def)
  from normalize_returns [of ?a] normalize_returns [of ?b] normalize_returns [of ?c] a b c
  show ?thesis by blast
qed

text \<open>
  Claim C5. A missing source is not always bound to null or the empty string: on the
  empty activity the compact row has \<open>distance\<close> and \<open>moving_time\<close> bound to
  \<open>0.0\<close> and both speeds bound to \<open>0\<close>.
\<close>

theorem missing_is_null_counterexample:
  "extract_activity_data Map.empty =
     Inr [(''id'', PNone), (''name'', PNone), (''distance'', PFloat (Finite 0)),
          (''moving_time'', PFloat (Finite 0)), (''elapsed_time'', PNone),
          (''total_elevation_gain'', PNone), (''start_date'', PStr []),
          (''average_speed'', PInt 0), (''max_speed'', PInt 0), (''average_temp'', PNone),
          (''elev_high'', PNone), (''elev_low'', PNone), (''calories'', PNone),
          (''pr_count'', PNone)]"
  by (simp add: extract_activity_data_def to_kmh_def round_div_missing dict_get_def
        dict_get_default_def)

text \<open>
  Claim C5, as the code has it. Every row a normalizer returns has the field names of
  its field set, in that order, whatever is missing from the activity; and a field whose
  source key is missing is present and bound to the value the tables give: \<open>None\<close>
  for the fields passed through, the empty string where the code reads with default
  \<open>""\<close>, \<open>0.0\<close> for the converted distance and moving time, \<open>0\<close> for the
  speeds of the compact set.
\<close>

theorem fixed_shape:
  "(extract_activity_data a = Inr row \<longrightarrow>
      map fst row = compact_fields \<and>
      list_all (\<lambda>(f, k, d). a k = None \<longrightarrow> map_of row f = Some d) compact_sources)
   \<and> (extract_activity_data_cli a = Inr row' \<longrightarrow>
      map fst row' = extended_fields \<and>
      list_all (\<lambda>(f, k, d). a k = None \<longrightarrow> map_of row' f = Some d) extended_sources)
   \<and> map fst compact_sources = compact_fields
   \<and> map fst extended_sources = extended_fields"
  using extract_fields [of a row] extract_missing [of a row]
    extract_cli_fields [of a row'] extract_cli_missing [of a row']
  by (simp add: compact_sources_def compact_fields_def extended_sources_def extended_fields_def)

theorem fixed_shape_witness:
  "extract_activity_data [''id'' \<mapsto> PInt 7, ''distance'' \<mapsto> PInt 10234] =
     Inr [(''id'', PInt 7), (''name'', PNone), (''distance'', PFloat (Finite (2879489011750011 / 281474976710656))),
          (''moving_time'', PFloat (Finite 0)), (''elapsed_time'', PNone),
          (''total_elevation_gain'', PNone), (''start_date'', PStr []),
          (''average_speed'', PInt 0), (''max_speed'', PInt 0), (''average_temp'', PNone),
          (''elev_high'', PNone), (''elev_low'', PNone), (''calories'', PNone),
          (''pr_count'', PNone)]
   \<and> map fst [(''id'', PInt 7), (''name'', PNone), (''distance'', PFloat (Finite (2879489011750011 / 281474976710656))),
          (''moving_time'', PFloat (Finite 0)), (''elapsed_time'', PNone),
          (''total_elevation_gain'', PNone), (''start_date'', PStr []),
          (''average_speed'', PInt 0), (''max_speed'', PInt 0), (''average_temp'', PNone),
          (''elev_high'', PNone), (''elev_low'', PNone), (''calories'', PNone),
          (''pr_count'', PNone)] = compact_fields
   \<and> extract_activity_data_cli [''id'' \<mapsto> PInt 7, ''distance'' \<mapsto> PInt 10234] =
     Inr [(''id'', PInt 7), (''name'', PNone), (''type'', PNone), (''date'', PStr []),
          (''start_time'', PStr []), (''distance_m'', PInt 10234),
          (''distance_km'', PFloat (Finite (2879489011750011 / 281474976710656))), (''moving_time_s'', PNone),
          (''moving_time_min'', PFloat (Finite 0)), (''elapsed_time_s'', PNone),
          (''elevation_gain_m'', PNone), (''average_speed_ms'', PNone),
          (''max_speed_ms'', PNone), (''average_hr'', PNone), (''max_hr'', PNone),
          (''calories'', PNone), (''location'', PStr []), (''kudos'', PNone),
          (''commute'', PNone), (''trainer'', PNone), (''manual'', PNone)]
   \<and> map fst [(''id'', PInt 7), (''name'', PNone), (''type'', PNone), (''date'', PStr []),
          (''start_time'', PStr []), (''distance_m'', PInt 10234),
          (''distance_km'', PFloat (Finite (2879489011750011 / 281474976710656))), (''moving_time_s'', PNone),
          (''moving_time_min'', PFloat (Finite 0)), (''elapsed_time_s'', PNone),
          (''elevation_gain_m'', PNone), (''average_speed_ms'', PNone),
          (''max_speed_ms'', PNone), (''average_hr'', PNone), (''max_hr'', PNone),
          (''calories'', PNone), (''location'', PStr []), (''kudos'', PNone),
          (''commute'', PNone), (''trainer'', PNone), (''manual'', PNone)] = extended_fields"
proof -
  let ?a = "[''id'' \<mapsto> PInt 7, ''distance'' \<mapsto> PInt 10234]"
  let ?r = "[(''id'', PInt 7), (''name'', PNone), (''distance'', PFloat (Finite (2879489011750011 / 281474976710656))),
          (''moving_time'', PFloat (Finite 0)), (''elapsed_time'', PNone),
          (''total_elevation_gain'', PNone), (''start_date'', PStr []),
          (''average_speed'', PInt 0), (''max_speed'', PInt 0), (''average_temp'', PNone),
          (''elev_high'', PNone), (''elev_low'', PNone), (''calories'', PNone),
          (''pr_count'', PNone)]"
  let ?r' = "[(''id'', PInt 7), (''name'', PNone), (''type'', PNone), (''date'', PStr []),
          (''start_time'', PStr []), (''distance_m'', PInt 10234),
          (''distance_km'', PFloat (Finite (2879489011750011 / 281474976710656))), (''moving_time_s'', PNone),
          (''moving_time_min'', PFloat (Finite 0)), (''elapsed_time_s'', PNone),
          (''elevation_gain_m'', PNone), (''average_speed_ms'', PNone),
          (''max_speed_ms'', PNone), (''average_hr'', PNone), (''max_hr'', PNone),
          (''calories'', PNone), (''location'', PStr []), (''kudos'', PNone),
          (''commute'', PNone), (''trainer'', PNone), (''manual'', PNone)]"
  have d: "round_div ?a ''distance'' 1000 = Inr (PFloat (Finite (2879489011750011 / 281474976710656)))"
  proof -
    have 1: "fl (5117 / 500) = 5761229823313707 / 562949953421312"
      by (subst fl_eq [where e = 3]) (simp_all add: half_even_def)
    have 2: "to_float False (5117 / 500) = Finite (5761229823313707 / 562949953421312)"
      by (rule to_float_Finite [OF 1]) (simp_all add: float_limit_def)
    have 3: "nearest_even (5761229823313707 / 562949953421312 * 100) 1023"
      by (simp add: nearest_even_def)
    have 4: "fl (1023 / 100) = 2879489011750011 / 281474976710656"
      by (subst fl_eq [where e = 3]) (simp_all add: half_even_def)
    have "to_float False (1023 / 100) = Finite (2879489011750011 / 281474976710656)"
      by (rule to_float_Finite [OF 4]) (simp_all add: float_limit_def)
    with py_round2_nearest [OF 3]
    have 5: "py_round2 (Finite (5761229823313707 / 562949953421312)) =
        Finite (2879489011750011 / 281474976710656)"
      by (simp del: py_round2.simps)
    have 6: "\<not> float_limit * 1000 \<le> 10234" by (simp add: float_limit_def)
    show ?thesis by (simp add: round_div_def dict_get_default_def 2 5 6 del: py_round2.simps)
  qed
  have r: "extract_activity_data ?a = Inr ?r"
    by (simp add: extract_activity_data_def to_kmh_def d dict_get_def dict_get_default_def
          round_div_missing)
  have r': "extract_activity_data_cli ?a = Inr ?r'"
    by (simp add: extract_activity_data_cli_def d dict_get_def dict_get_default_def
          round_div_missing)
  from fixed_shape [of ?a ?r ?r'] r r' show ?thesis by blast
qed

text \<open>
  Claim C6. In a row of the compact normalizer, \<open>average_speed\<close> and
  \<open>max_speed\<close> are \<open>0\<close> when the key is missing, the raw value itself when it is
  falsy, and otherwise \<open>round(raw * 3.6, 2)\<close>: the raw number is multiplied by the
  double \<open>3.6\<close> in double arithmetic, and the product \<open>p\<close> is replaced by the double
  nearest to \<open>k / 100\<close>, where \<open>k\<close> is the integer nearest to \<open>100 * p\<close> (the even one
  on a tie). A raw \<open>5.0\<close> gives \<open>18.0\<close>, a raw \<open>0.0625\<close> gives \<open>0.23\<close>, and a raw
  int \<open>0\<close> stays the int \<open>0\<close>.
\<close>

theorem speed_conversion:
  assumes "extract_activity_data a = Inr row"
      and "key = ''average_speed'' \<or> key = ''max_speed''"
  shows "(a key = None \<longrightarrow> map_of row key = Some (PInt 0))
       \<and> (\<forall>raw. a key = Some raw \<and> \<not> truthy raw \<longrightarrow> map_of row key = Some raw)
       \<and> (\<forall>x. a key = Some (PFloat x) \<and> truthy (PFloat x) \<longrightarrow>
              map_of row key = Some (PFloat (py_round2 (scale x c36))))
       \<and> (\<forall>n. a key = Some (PInt n) \<and> n \<noteq> 0 \<longrightarrow>
              map_of row key =
                Some (PFloat (py_round2 (scale (Finite (fl (real_of_int n))) c36))))
       \<and> (a key = Some (PBool True) \<longrightarrow>
              map_of row key = Some (PFloat (py_round2 (scale (Finite 1) c36))))
       \<and> c36 = 8106479329266893 / 2251799813685248
       \<and> (\<forall>x. scale (Finite x) c36 = to_float (x < 0) (x * c36))
       \<and> (\<forall>p k. nearest_even (p * 100) k \<longrightarrow>
              py_round2 (Finite p) = to_float (p < 0) (real_of_int k / 100))"
proof -
  from assms(1) obtain av mx where
    av: "to_kmh (dict_get_default a ''average_speed'' (PInt 0)) = Inr av" and
    mx: "to_kmh (dict_get_default a ''max_speed'' (PInt 0)) = Inr mx" and
    row: "map_of row ''average_speed'' = Some av" "map_of row ''max_speed'' = Some mx"
    by (auto simp: extract_activity_data_def split: sum.splits)
  have *: "(a k = None \<longrightarrow> v = PInt 0)
       \<and> (\<forall>raw. a k = Some raw \<and> \<not> truthy raw \<longrightarrow> v = raw)
       \<and> (\<forall>x. a k = Some (PFloat x) \<and> truthy (PFloat x) \<longrightarrow>
              v = PFloat (py_round2 (scale x c36)))
       \<and> (\<forall>n. a k = Some (PInt n) \<and> n \<noteq> 0 \<longrightarrow>
              v = PFloat (py_round2 (scale (Finite (fl (real_of_int n))) c36)))
       \<and> (a k = Some (PBool True) \<longrightarrow> v = PFloat (py_round2 (scale (Finite 1) c36)))"
    if t: "to_kmh (dict_get_default a k (PInt 0)) = Inr v" for k v
    using t by (auto simp: to_kmh_def dict_get_default_def split: if_splits sum.splits)
  have r: "\<forall>p k. nearest_even (p * 100) k \<longrightarrow>
              py_round2 (Finite p) = to_float (p < 0) (real_of_int k / 100)"
    using py_round2_nearest by blast
  have s: "\<forall>x. scale (Finite x) c36 = to_float (x < 0) (x * c36)" by simp
  from assms(2) show ?thesis
  proof
    assume "key = ''average_speed''"
    with * [OF av] row(1) r s c36_value show ?thesis by simp
  next
    assume "key = ''max_speed''"
    with * [OF mx] row(2) r s c36_value show ?thesis by simp
  qed
qed

theorem speed_conversion_witness:
  "extract_activity_data [''average_speed'' \<mapsto> PFloat (Finite 5), ''max_speed'' \<mapsto> PInt 0] =
     Inr [(''id'', PNone), (''name'', PNone), (''distance'', PFloat (Finite 0)),
          (''moving_time'', PFloat (Finite 0)), (''elapsed_time'', PNone),
          (''total_elevation_gain'', PNone), (''start_date'', PStr []),
          (''average_speed'', PFloat (Finite 18)), (''max_speed'', PInt 0),
          (''average_temp'', PNone), (''elev_high'', PNone), (''elev_low'', PNone),
          (''calories'', PNone), (''pr_count'', PNone)]
   \<and> extract_activity_data
        [''average_speed'' \<mapsto> PFloat (Finite (1 / 16)), ''max_speed'' \<mapsto> PFloat NegZero] =
     Inr [(''id'', PNone), (''name'', PNone), (''distance'', PFloat (Finite 0)),
          (''moving_time'', PFloat (Finite 0)), (''elapsed_time'', PNone),
          (''total_elevation_gain'', PNone), (''start_date'', PStr []),
          (''average_speed'', PFloat (Finite (8286623314361713 / 36028797018963968))),
          (''max_speed'', PFloat NegZero),
          (''average_temp'', PNone), (''elev_high'', PNone), (''elev_low'', PNone),
          (''calories'', PNone), (''pr_count'', PNone)]
   \<and> fl (23 / 100) = 8286623314361713 / 36028797018963968"
proof -
  let ?a = "[''average_speed'' \<mapsto> PFloat (Finite 5), ''max_speed'' \<mapsto> PInt 0]"
  let ?b = "[''average_speed'' \<mapsto> PFloat (Finite (1 / 16)), ''max_speed'' \<mapsto> PFloat NegZero]"
  have c: "c36 = 8106479329266893 / 2251799813685248" by (rule c36_value)
  have f18: "fl (40532396646334465 / 2251799813685248) = 18"
    by (subst fl_eq [where e = 4]) (simp_all add: half_even_def)
  have "to_float False (40532396646334465 / 2251799813685248) = Finite 18"
    by (rule to_float_Finite [OF f18]) (simp_all add: float_limit_def)
  then have s5: "scale (Finite 5) c36 = Finite 18"
    by (simp add: c)
  have n18: "nearest_even (18 * 100) 1800" by (simp add: nearest_even_def)
  have g18: "fl 18 = 18"
    by (subst fl_eq [where e = 4]) (simp_all add: half_even_def)
  have t18: "to_float False 18 = Finite 18"
    by (rule to_float_Finite [OF g18]) (simp_all add: float_limit_def)
  have f225: "fl (8106479329266893 / 36028797018963968) =
      8106479329266893 / 36028797018963968"
    by (subst fl_eq [where e = "- 3"]) (simp_all add: half_even_def)
  have "to_float False (8106479329266893 / 36028797018963968) =
      Finite (8106479329266893 / 36028797018963968)"
    by (rule to_float_Finite [OF f225]) (simp_all add: float_limit_def)
  then have s16: "scale (Finite (1 / 16)) c36 = Finite (8106479329266893 / 36028797018963968)"
    by (simp add: c)
  have n23: "nearest_even (8106479329266893 / 36028797018963968 * 100) 23"
    by (simp add: nearest_even_def)
  have g23: "fl (23 / 100) = 8286623314361713 / 36028797018963968"
    by (subst fl_eq [where e = "- 3"]) (simp_all add: half_even_def)
  have t23: "to_float False (23 / 100) = Finite (8286623314361713 / 36028797018963968)"
    by (rule to_float_Finite [OF g23]) (simp_all add: float_limit_def)
  obtain ra where ra: "extract_activity_data ?a = Inr ra"
    and ra': "ra = [(''id'', PNone), (''name'', PNone), (''distance'', PFloat (Finite 0)),
          (''moving_time'', PFloat (Finite 0)), (''elapsed_time'', PNone),
          (''total_elevation_gain'', PNone), (''start_date'', PStr []),
          (''average_speed'', PFloat (py_round2 (scale (Finite 5) c36))), (''max_speed'', PInt 0),
          (''average_temp'', PNone), (''elev_high'', PNone), (''elev_low'', PNone),
          (''calories'', PNone), (''pr_count'', PNone)]"
    by (simp add: extract_activity_data_def to_kmh_def round_div_missing dict_get_def
        dict_get_default_def)
  obtain rb where rb: "extract_activity_data ?b = Inr rb"
    and rb': "rb = [(''id'', PNone), (''name'', PNone), (''distance'', PFloat (Finite 0)),
          (''moving_time'', PFloat (Finite 0)), (''elapsed_time'', PNone),
          (''total_elevation_gain'', PNone), (''start_date'', PStr []),
          (''average_speed'', PFloat (py_round2 (scale (Finite (1 / 16)) c36))),
          (''max_speed'', PFloat NegZero),
          (''average_temp'', PNone), (''elev_high'', PNone), (''elev_low'', PNone),
          (''calories'', PNone), (''pr_count'', PNone)]"
    by (simp add: extract_activity_data_def to_kmh_def round_div_missing dict_get_def
        dict_get_default_def)
  from speed_conversion [OF ra, of "''average_speed''"]
  have A: "map_of ra ''average_speed'' = Some (PFloat (py_round2 (scale (Finite 5) c36)))"
    and R: "\<forall>p k. nearest_even (p * 100) k \<longrightarrow>
              py_round2 (Finite p) = to_float (p < 0) (real_of_int k / 100)"
    by (simp_all del: py_round2.simps scale.simps)
  from speed_conversion [OF rb, of "''average_speed''"]
  have B: "map_of rb ''average_speed'' =
      Some (PFloat (py_round2 (scale (Finite (1 / 16)) c36)))"
    by (simp del: py_round2.simps scale.simps)
  from R [rule_format, OF n18] t18
  have "py_round2 (Finite 18) = Finite 18" by (simp del: py_round2.simps)
  then have p18: "py_round2 (scale (Finite 5) c36) = Finite 18" by (simp only: s5)
  from R [rule_format, OF n23] t23
  have "py_round2 (Finite (8106479329266893 / 36028797018963968)) =
      Finite (8286623314361713 / 36028797018963968)" by (simp del: py_round2.simps)
  then have p23: "py_round2 (scale (Finite (1 / 16)) c36) =
      Finite (8286623314361713 / 36028797018963968)" by (simp only: s16)
  from A B have "map_of ra ''average_speed'' = Some (PFloat (Finite 18))"
    and "map_of rb ''average_speed'' =
      Some (PFloat (Finite (8286623314361713 / 36028797018963968)))"
    by (simp_all only: p18 p23)
  from ra ra' rb rb' p18 p23 g23 show ?thesis by simp
qed

section \<open>Facts about the export\<close>

lemma special_cases [simp]:
  "special comma" "special dquote" "special cr" "special lf"
  by (simp_all add: special_def)

lemma distinct_marks [simp]:
  "comma \<noteq> dquote" "comma \<noteq> cr" "comma \<noteq> lf" "dquote \<noteq> cr" "dquote \<noteq> lf" "cr \<noteq> lf"
  "dquote \<noteq> comma" "cr \<noteq> comma" "lf \<noteq> comma" "cr \<noteq> dquote" "lf \<noteq> dquote" "lf \<noteq> cr"
  by (simp_all add: comma_def dquote_def cr_def lf_def)

lemma reader_plain:
  "\<not> list_ex special s \<Longrightarrow>
   reader (In_field, f, fs) (s @ rest) = reader (In_field, f @ s, fs) rest"
proof (induction s arbitrary: f)
  case Nil
  then show ?case by simp
next
  case (Cons c s)
  then have nc: "\<not> special c" and s: "\<not> list_ex special s"
    by simp_all
  from nc have c: "c \<noteq> comma" "c \<noteq> cr" "c \<noteq> lf"
    by (auto simp: special_def)
  from Cons.IH [OF s, of "f @ [c]"] c show ?case by simp
qed

lemma escape_Cons: "escape (c # s) = (if c = dquote then [c, c] else [c]) @ escape s"
  by (simp add: escape_def)

lemma reader_quoted:
  "reader (In_quoted_field, f, fs) (escape s @ rest) = reader (In_quoted_field, f @ s, fs) rest"
proof (induction s arbitrary: f)
  case Nil
  then show ?case by (simp add: escape_def)
next
  case (Cons c s)
  from Cons.IH [of "f @ [c]"] show ?case
    by (cases "c = dquote") (simp_all add: escape_Cons)
qed

lemma reader_field:
  assumes "d = comma \<or> d = cr"
  shows "reader (Start_field, x, fs) (csv_field s @ d # rest) =
         reader (In_field, s, fs) (d # rest)"
proof (cases "list_ex special s")
  case True
  then have "reader (Start_field, x, fs) (csv_field s @ d # rest) =
      reader (In_quoted_field, [], fs) (escape s @ dquote # d # rest)"
    by (simp add: csv_field_def begin_field_def)
  also have "\<dots> = reader (In_quoted_field, s, fs) (dquote # d # rest)"
    using reader_quoted [of "[]" fs s] by simp
  also have "\<dots> = reader (In_field, s, fs) (d # rest)"
    using assms by (auto simp: end_record_def)
  finally show ?thesis .
next
  case False
  show ?thesis
  proof (cases s)
    case Nil
    with assms show ?thesis
      by (auto simp: csv_field_def begin_field_def end_record_def)
  next
    case (Cons c s')
    with False have c: "\<not> special c" and s': "\<not> list_ex special s'" by simp_all
    from c have "c \<noteq> dquote" "c \<noteq> comma" "c \<noteq> cr" "c \<noteq> lf" by (auto simp: special_def)
    then have "reader (Start_field, x, fs) (csv_field s @ d # rest) =
        reader (In_field, [c], fs) (s' @ d # rest)"
      using False Cons by (simp add: csv_field_def begin_field_def)
    also have "\<dots> = reader (In_field, s, fs) (d # rest)"
      using reader_plain [OF s', of "[c]" fs] Cons by simp
    finally show ?thesis .
  qed
qed

lemma reader_line:
  "cells \<noteq> [] \<Longrightarrow>
   reader (Start_field, x, fs) (join_fields (map csv_field cells) @ cr # lf # rest) =
     (fs @ cells) # reader (Start_record, [], []) rest"
proof (induction cells arbitrary: x fs)
  case Nil
  then show ?case by simp
next
  case (Cons s cells)
  show ?case
  proof (cases cells)
    case Nil
    then show ?thesis
      using reader_field [of cr x fs s "lf # rest"] by (simp add: end_record_def)
  next
    case (Cons t cells')
    then have ne: "cells \<noteq> []" by simp
    have "reader (Start_field, x, fs) (join_fields (map csv_field (s # cells)) @ cr # lf # rest) =
      reader (Start_field, x, fs)
        (csv_field s @ comma # join_fields (map csv_field cells) @ cr # lf # rest)"
      using Cons by simp
    also have "\<dots> = reader (Start_field, [], fs @ [s])
        (join_fields (map csv_field cells) @ cr # lf # rest)"
      using reader_field [of comma x fs s] by simp
    also have "\<dots> = ((fs @ [s]) @ cells) # reader (Start_record, [], []) rest"
      by (rule Cons.IH [OF ne])
    finally show ?thesis by simp
  qed
qed

lemma csv_field_Nil: "csv_field s = [] \<longleftrightarrow> s = []"
  by (cases s) (simp_all add: csv_field_def)

lemma join_fields_Nil: "join_fields (map csv_field cells) = [] \<longleftrightarrow> cells = [] \<or> cells = [[]]"
proof (cases cells)
  case Nil
  then show ?thesis by simp
next
  case (Cons s cells')
  then show ?thesis by (cases cells') (simp_all add: csv_field_Nil)
qed

lemma csv_field_hd: "csv_field s = c # cs \<Longrightarrow> c \<noteq> cr \<and> c \<noteq> lf"
  by (cases s) (auto simp: csv_field_def special_def split: if_splits)

lemma join_fields_hd:
  "join_fields (map csv_field cells) = c # cs \<Longrightarrow> c \<noteq> cr \<and> c \<noteq> lf"
proof (cases cells)
  case Nil
  assume "join_fields (map csv_field cells) = c # cs"
  with Nil show ?thesis by simp
next
  case (Cons s cells')
  assume j: "join_fields (map csv_field cells) = c # cs"
  show ?thesis
  proof (cases cells')
    case Nil
    with j Cons show ?thesis using csv_field_hd [of s c cs] by simp
  next
    case (Cons t cells'')
    show ?thesis
    proof (cases "csv_field s")
      case Nil
      with j \<open>cells = s # cells'\<close> Cons show ?thesis by simp
    next
      case (Cons c' cs')
      with j \<open>cells = s # cells'\<close> \<open>cells' = t # cells''\<close> have "c' = c" by simp
      with Cons csv_field_hd [of s c' cs'] show ?thesis by simp
    qed
  qed
qed

lemma reader_start:
  "c \<noteq> cr \<Longrightarrow> c \<noteq> lf \<Longrightarrow>
   reader (Start_record, x, y) (c # cs) = reader (Start_field, [], []) (c # cs)"
  by (simp add: begin_record_def)

lemma reader_record:
  "reader (Start_record, x, y) (csv_record cells @ rest) =
     cells # reader (Start_record, [], []) rest"
proof (cases "join_fields (map csv_field cells)")
  case Nil
  then consider "cells = []" | "cells = [[]]" using join_fields_Nil [of cells] by auto
  then show ?thesis
  proof cases
    case 1
    then show ?thesis by (simp add: csv_record_def begin_record_def end_record_def)
  next
    case 2
    then show ?thesis
      by (simp add: csv_record_def csv_field_def begin_record_def begin_field_def end_record_def)
  qed
next
  case (Cons c cs)
  then have ne: "cells \<noteq> []" by auto
  from Cons join_fields_hd [of cells c cs] have c: "c \<noteq> cr" "c \<noteq> lf" by simp_all
  have "reader (Start_record, x, y) (csv_record cells @ rest) =
      reader (Start_record, x, y) (c # cs @ cr # lf # rest)"
    using Cons by (simp add: csv_record_def)
  also have "\<dots> = reader (Start_field, [], []) (c # cs @ cr # lf # rest)"
    using c by (rule reader_start)
  also have "\<dots> = reader (Start_field, [], [])
      (join_fields (map csv_field cells) @ cr # lf # rest)"
    using Cons by simp
  also have "\<dots> = ([] @ cells) # reader (Start_record, [], []) rest"
    using ne by (rule reader_line)
  finally show ?thesis by simp
qed

lemma reader_table:
  "reader (Start_record, x, y) (table_text records) = records"
proof (induction records arbitrary: x y)
  case Nil
  then show ?case by (simp add: table_text_def)
next
  case (Cons r records)
  have "table_text (r # records) = csv_record r @ table_text records"
    by (simp add: table_text_def)
  with reader_record [of x y r "table_text records"] Cons.IH show ?case by simp
qed

lemma csv_parse_table: "csv_parse (table_text records) = records"
  by (simp add: csv_parse_def reader_table)

lemma dict_to_list_same:
  assumes "map fst r = fieldnames" and "distinct fieldnames"
  shows "dict_to_list fieldnames r = Inr (map snd r)"
proof -
  have "\<not> list_ex (\<lambda>k. k \<notin> set fieldnames) (map fst r)"
    using assms(1) by (auto simp: list_ex_iff)
  moreover have "map (\<lambda>key. case map_of r key of None \<Rightarrow> PStr [] | Some v \<Rightarrow> v) (map fst r)
      = map snd r"
    using assms by (auto simp: map_of_eq_Some_iff [THEN iffD2])
  ultimately show ?thesis using assms(1) by (simp add: dict_to_list_def)
qed

lemma write_rows_all:
  assumes "list_all (\<lambda>a. \<exists>r. extract a = Inr r \<and> map fst r = fieldnames) acts"
      and "distinct fieldnames"
  shows "write_rows extract float_repr fieldnames acts out =
           (None, out @ table_text (map (row_cells extract float_repr) acts))"
  using assms(1)
proof (induction acts arbitrary: out)
  case Nil
  then show ?case by (simp add: table_text_def)
next
  case (Cons a acts)
  then obtain r where r: "extract a = Inr r" "map fst r = fieldnames"
    and rest: "list_all (\<lambda>a. \<exists>r. extract a = Inr r \<and> map fst r = fieldnames) acts"
    by auto
  have cells: "row_cells extract float_repr a = map (csv_cell float_repr) (map snd r)"
    by (simp add: row_cells_def r(1) case_prod_beta comp_def)
  from Cons.IH [OF rest] r dict_to_list_same [OF r(2) assms(2)] cells
  show ?case by (simp add: table_text_def)
qed

lemma export_with_all:
  assumes "acts \<noteq> []" and "openable fs filename"
      and "list_all (\<lambda>a. \<exists>r. extract a = Inr r \<and> map fst r = fieldnames) acts"
      and "distinct fieldnames"
  shows "export_with extract float_repr fs acts filename =
           (Inr True,
            fs\<lparr>files := (files fs)(filename \<mapsto>
                  table_text (fieldnames # map (row_cells extract float_repr) acts))\<rparr>)"
    and "row_names extract (hd acts) = fieldnames"
proof -
  from assms(1) obtain a rest where acts: "acts = a # rest" by (cases acts) auto
  with assms(3) obtain r where r: "extract a = Inr r" "map fst r = fieldnames" by auto
  have "write_rows extract float_repr fieldnames acts (csv_record fieldnames) =
      (None, table_text (fieldnames # map (row_cells extract float_repr) acts))"
    using write_rows_all [OF assms(3,4)] by (simp add: table_text_def)
  with r acts assms(2)
  show "export_with extract float_repr fs acts filename =
           (Inr True,
            fs\<lparr>files := (files fs)(filename \<mapsto>
                  table_text (fieldnames # map (row_cells extract float_repr) acts))\<rparr>)"
    by (simp add: export_with_def)
  from r acts show "row_names extract (hd acts) = fieldnames"
    by (simp add: row_names_def)
qed

lemma compact_rows:
  "list_all compact_ok acts \<Longrightarrow>
   list_all (\<lambda>a. \<exists>r. extract_activity_data a = Inr r \<and> map fst r = compact_fields) acts"
  using extract_returns extract_fields by (fastforce simp: list_all_iff)

lemma extended_rows:
  "list_all extended_ok acts \<Longrightarrow>
   list_all (\<lambda>a. \<exists>r. extract_activity_data_cli a = Inr r \<and> map fst r = extended_fields) acts"
  using extract_cli_returns extract_cli_fields by (fastforce simp: list_all_iff)

lemma distinct_compact: "distinct compact_fields"
  by (simp add: compact_fields_def)

lemma distinct_extended: "distinct extended_fields"
  by (simp add: extended_fields_def)

text \<open>
  Claim C8. Exporting no activities returns \<open>False\<close> and leaves the file system as
  it was: no file is created and none is truncated.
\<close>

theorem empty_export_fails:
  "export_to_csv float_repr fs [] filename = (Inr False, fs)
   \<and> export_to_csv_cli float_repr fs [] filename = (Inr False, fs)"
  by (simp add: export_to_csv_def export_to_csv_cli_def export_with_def)

text \<open>
  Claim C9. For a non-empty list of activities that all normalize, written to a path
  that can be opened, the export returns \<open>True\<close> and the file holds the header record
  and one record per activity; reading that text back gives the field names of the first
  row, then for each activity, in order, the cells of its row as the writer formats them.
  The text of a float is any function.
\<close>

theorem export_round_trip:
  assumes "acts \<noteq> []" and "openable fs filename"
  shows "(list_all compact_ok acts \<longrightarrow>
           export_to_csv float_repr fs acts filename =
             (Inr True,
              fs\<lparr>files := (files fs)(filename \<mapsto>
                 table_text (compact_fields # map (row_cells extract_activity_data float_repr) acts))\<rparr>)
           \<and> csv_parse (table_text
                 (compact_fields # map (row_cells extract_activity_data float_repr) acts))
               = row_names extract_activity_data (hd acts)
                   # map (row_cells extract_activity_data float_repr) acts)
       \<and> (list_all extended_ok acts \<longrightarrow>
           export_to_csv_cli float_repr fs acts filename =
             (Inr True,
              fs\<lparr>files := (files fs)(filename \<mapsto>
                 table_text (extended_fields # map (row_cells extract_activity_data_cli float_repr) acts))\<rparr>)
           \<and> csv_parse (table_text
                 (extended_fields # map (row_cells extract_activity_data_cli float_repr) acts))
               = row_names extract_activity_data_cli (hd acts)
                   # map (row_cells extract_activity_data_cli float_repr) acts)"
proof (intro conjI impI)
  assume ok: "list_all compact_ok acts"
  note e = export_with_all [OF assms compact_rows [OF ok] distinct_compact]
  from e(1) show "export_to_csv float_repr fs acts filename =
             (Inr True,
              fs\<lparr>files := (files fs)(filename \<mapsto>
                 table_text (compact_fields # map (row_cells extract_activity_data float_repr) acts))\<rparr>)"
    by (simp add: export_to_csv_def)
  from e(2) show "csv_parse (table_text
                 (compact_fields # map (row_cells extract_activity_data float_repr) acts))
               = row_names extract_activity_data (hd acts)
                   # map (row_cells extract_activity_data float_repr) acts"
    by (simp add: csv_parse_table)
next
  assume ok: "list_all extended_ok acts"
  note e = export_with_all [OF assms extended_rows [OF ok] distinct_extended]
  from e(1) show "export_to_csv_cli float_repr fs acts filename =
             (Inr True,
              fs\<lparr>files := (files fs)(filename \<mapsto>
                 table_text (extended_fields # map (row_cells extract_activity_data_cli float_repr) acts))\<rparr>)"
    by (simp add: export_to_csv_cli_def)
  from e(2) show "csv_parse (table_text
                 (extended_fields # map (row_cells extract_activity_data_cli float_repr) acts))
               = row_names extract_activity_data_cli (hd acts)
                   # map (row_cells extract_activity_data_cli float_repr) acts"
    by (simp add: csv_parse_table)
qed

theorem export_round_trip_witness:
  "[[''id'' \<mapsto> PInt 42, ''name'' \<mapsto> PStr ''Lunch, run'']] \<noteq> []
   \<and> openable \<lparr>files = Map.empty, openable = (\<lambda>p. True)\<rparr> ''out.csv''
   \<and> list_all compact_ok [[''id'' \<mapsto> PInt 42, ''name'' \<mapsto> PStr ''Lunch, run'']]
   \<and> export_to_csv (\<lambda>x. ''0.0'') \<lparr>files = Map.empty, openable = (\<lambda>p. True)\<rparr>
        [[''id'' \<mapsto> PInt 42, ''name'' \<mapsto> PStr ''Lunch, run'']] ''out.csv''
      = (Inr True,
         \<lparr>files = [''out.csv'' \<mapsto>
             table_text [compact_fields,
               [''42'', ''Lunch, run'', ''0.0'', ''0.0'', [], [], [], ''0'', ''0'',
                [], [], [], [], []]]],
          openable = (\<lambda>p. True)\<rparr>)
   \<and> csv_parse (table_text [compact_fields,
               [''42'', ''Lunch, run'', ''0.0'', ''0.0'', [], [], [], ''0'', ''0'',
                [], [], [], [], []]])
       = [compact_fields,
               [''42'', ''Lunch, run'', ''0.0'', ''0.0'', [], [], [], ''0'', ''0'',
                [], [], [], [], []]]
   \<and> csv_record [''42'', ''Lunch, run'', []]
       = ''42,'' @ [dquote] @ ''Lunch, run'' @ [dquote] @ '','' @ [cr, lf]"
proof -
  let ?a = "[''id'' \<mapsto> PInt 42, ''name'' \<mapsto> PStr ''Lunch, run'']"
  let ?fs = "\<lparr>files = Map.empty, openable = (\<lambda>p. True)\<rparr>"
  have ne: "[?a] \<noteq> []" by simp
  have op: "openable ?fs ''out.csv''" by simp
  have ok: "list_all compact_ok [?a]"
    by (simp add: compact_ok_def dict_get_default_def float_limit_def)
  have ex: "extract_activity_data ?a =
     Inr [(''id'', PInt 42), (''name'', PStr ''Lunch, run''), (''distance'', PFloat (Finite 0)),
          (''moving_time'', PFloat (Finite 0)), (''elapsed_time'', PNone),
          (''total_elevation_gain'', PNone), (''start_date'', PStr []),
          (''average_speed'', PInt 0), (''max_speed'', PInt 0), (''average_temp'', PNone),
          (''elev_high'', PNone), (''elev_low'', PNone), (''calories'', PNone),
          (''pr_count'', PNone)]"
    by (simp add: extract_activity_data_def to_kmh_def round_div_missing dict_get_def
        dict_get_default_def)
  have cells: "row_cells extract_activity_data (\<lambda>x. ''0.0'') ?a =
      [''42'', ''Lunch, run'', ''0.0'', ''0.0'', [], [], [], ''0'', ''0'', [], [], [], [], []]"
    by (simp add: row_cells_def ex csv_cell_def show_int_def)
  have names: "row_names extract_activity_data ?a = compact_fields"
    by (simp add: row_names_def ex compact_fields_def)
  have rec: "csv_record [''42'', ''Lunch, run'', []]
       = ''42,'' @ [dquote] @ ''Lunch, run'' @ [dquote] @ '','' @ [cr, lf]"
    by (simp add: csv_record_def csv_field_def special_def escape_def comma_def dquote_def
          cr_def lf_def)
  from export_round_trip [OF ne op, of "\<lambda>x. ''0.0''"] ok cells names rec
  show ?thesis by simp
qed

end
